theory Spec2Isabelle
  imports Complex_Main "HOL-Library.AList"
begin

section \<open>Python values and errors\<close>

text \<open>
  A Python \<^verbatim>\<open>float\<close>: a finite value, an infinity or a NaN. \<open>Fin x\<close> stands for the float
  whose value is \<open>x\<close> (both zeros are \<open>Fin 0\<close>).
\<close>

datatype pyfloat = Fin real | PInf | NInf | NaN

text \<open>
  A value decoded by \<^verbatim>\<open>json.loads\<close> or \<^verbatim>\<open>resp.json()\<close>. Python's \<^verbatim>\<open>None\<close> is \<open>JNull\<close>.
  A number without fraction or exponent is an \<^verbatim>\<open>int\<close> of any size, every other number is
  a \<^verbatim>\<open>float\<close>. An object is an association list whose keys are distinct, as in a Python
  dict.
\<close>

datatype json =
    JNull
  | JBool bool
  | JInt int
  | JFloat pyfloat
  | JStr string
  | JArr "json list"
  | JObj "(string \<times> json) list"

text \<open>The exceptions that the script and the library calls it makes can raise.\<close>

datatype error =
    HTTPError int
  | ConnectionError
  | JSONDecodeError
  | KeyError
  | IndexError
  | TypeError
  | ValueError
  | OverflowError
  | AttributeError
  | UnboundLocalError
  | FileNotFoundError
  | PermissionError
  | RuntimeError

text \<open>Truth value of an object, as tested by \<^verbatim>\<open>if cached:\<close>.\<close>

fun truthy :: "json \<Rightarrow> bool" where
  "truthy JNull = False"
| "truthy (JBool b) = b"
| "truthy (JInt i) = (i \<noteq> 0)"
| "truthy (JFloat f) = (f \<noteq> Fin 0)"
| "truthy (JStr s) = (s \<noteq> [])"
| "truthy (JArr xs) = (xs \<noteq> [])"
| "truthy (JObj kvs) = (kvs \<noteq> [])"

text \<open>\<^verbatim>\<open>d[k]\<close> for a string key \<open>k\<close>: only a dict accepts it.\<close>

fun getitem :: "json \<Rightarrow> string \<Rightarrow> error + json" where
  "getitem (JObj kvs) k = (case map_of kvs k of None \<Rightarrow> Inl KeyError | Some v \<Rightarrow> Inr v)"
| "getitem JNull k = Inl TypeError"
| "getitem (JBool b) k = Inl TypeError"
| "getitem (JInt i) k = Inl TypeError"
| "getitem (JFloat f) k = Inl TypeError"
| "getitem (JStr s) k = Inl TypeError"
| "getitem (JArr xs) k = Inl TypeError"

text \<open>\<^verbatim>\<open>d[0]\<close>: the first element of a list or string; a decoded dict has no key \<open>0\<close>.\<close>

fun getitem0 :: "json \<Rightarrow> error + json" where
  "getitem0 (JArr []) = Inl IndexError"
| "getitem0 (JArr (x # xs)) = Inr x"
| "getitem0 (JStr []) = Inl IndexError"
| "getitem0 (JStr (c # cs)) = Inr (JStr [c])"
| "getitem0 (JObj kvs) = Inl KeyError"
| "getitem0 JNull = Inl TypeError"
| "getitem0 (JBool b) = Inl TypeError"
| "getitem0 (JInt i) = Inl TypeError"
| "getitem0 (JFloat f) = Inl TypeError"

text \<open>\<^verbatim>\<open>d.get(k, default)\<close>: a method of dicts only.\<close>

fun dict_get :: "json \<Rightarrow> string \<Rightarrow> json \<Rightarrow> error + json" where
  "dict_get (JObj kvs) k d = (case map_of kvs k of None \<Rightarrow> Inr d | Some v \<Rightarrow> Inr v)"
| "dict_get JNull k d = Inl AttributeError"
| "dict_get (JBool b) k d = Inl AttributeError"
| "dict_get (JInt i) k d = Inl AttributeError"
| "dict_get (JFloat f) k d = Inl AttributeError"
| "dict_get (JStr s) k d = Inl AttributeError"
| "dict_get (JArr xs) k d = Inl AttributeError"

subsection \<open>Arithmetic on floats\<close>

text \<open>
  The arithmetic of floats rounds. The rounding \<open>rd\<close> of a real number to a float (the
  nearest binary64 value, an infinity when the number is out of range) is a parameter
  of the operations.

  Converting an \<^verbatim>\<open>int\<close> to a \<^verbatim>\<open>float\<close>, as the mixed operations \<^verbatim>\<open>int - float\<close> and
  \<^verbatim>\<open>float + int\<close> do first, raises \<^verbatim>\<open>OverflowError\<close> when the integer is out of range.
\<close>

definition float_of_int :: "(real \<Rightarrow> pyfloat) \<Rightarrow> int \<Rightarrow> error + pyfloat" where
  "float_of_int rd i =
     (case rd (of_int i) of
        Fin x \<Rightarrow> Inr (Fin x)
      | PInf \<Rightarrow> Inl OverflowError
      | NInf \<Rightarrow> Inl OverflowError
      | NaN \<Rightarrow> Inl OverflowError)"

text \<open>\<^verbatim>\<open>a + b\<close> and \<^verbatim>\<open>a - b\<close> on two floats: no exception, infinities and NaN propagate.\<close>

fun float_add :: "(real \<Rightarrow> pyfloat) \<Rightarrow> pyfloat \<Rightarrow> pyfloat \<Rightarrow> pyfloat" where
  "float_add rd (Fin x) (Fin y) = rd (x + y)"
| "float_add rd NaN b = NaN"
| "float_add rd (Fin x) NaN = NaN"
| "float_add rd PInf NaN = NaN"
| "float_add rd NInf NaN = NaN"
| "float_add rd PInf NInf = NaN"
| "float_add rd NInf PInf = NaN"
| "float_add rd PInf (Fin y) = PInf"
| "float_add rd PInf PInf = PInf"
| "float_add rd NInf (Fin y) = NInf"
| "float_add rd NInf NInf = NInf"
| "float_add rd (Fin x) PInf = PInf"
| "float_add rd (Fin x) NInf = NInf"

fun float_neg :: "pyfloat \<Rightarrow> pyfloat" where
  "float_neg (Fin x) = Fin (- x)"
| "float_neg PInf = NInf"
| "float_neg NInf = PInf"
| "float_neg NaN = NaN"

definition float_sub :: "(real \<Rightarrow> pyfloat) \<Rightarrow> pyfloat \<Rightarrow> pyfloat \<Rightarrow> pyfloat" where
  "float_sub rd a b = float_add rd a (float_neg b)"

text \<open>\<^verbatim>\<open>a > n\<close> for a float and the integer constant \<^verbatim>\<open>SKEW\<close>: the comparison is exact.\<close>

fun float_gt :: "pyfloat \<Rightarrow> real \<Rightarrow> bool" where
  "float_gt (Fin x) n = (x > n)"
| "float_gt PInf n = True"
| "float_gt NInf n = False"
| "float_gt NaN n = False"

text \<open>
  \<^verbatim>\<open>v - time.time()\<close> for a decoded value \<open>v\<close>: integers and booleans are converted to
  float first, floats subtract, everything else raises \<^verbatim>\<open>TypeError\<close>.
\<close>

fun minus_time :: "(real \<Rightarrow> pyfloat) \<Rightarrow> json \<Rightarrow> real \<Rightarrow> error + pyfloat" where
  "minus_time rd (JInt i) now =
     (case float_of_int rd i of Inl e \<Rightarrow> Inl e | Inr a \<Rightarrow> Inr (float_sub rd a (Fin now)))"
| "minus_time rd (JBool b) now =
     (case float_of_int rd (if b then 1 else 0) of
        Inl e \<Rightarrow> Inl e
      | Inr a \<Rightarrow> Inr (float_sub rd a (Fin now)))"
| "minus_time rd (JFloat a) now = Inr (float_sub rd a (Fin now))"
| "minus_time rd JNull now = Inl TypeError"
| "minus_time rd (JStr s) now = Inl TypeError"
| "minus_time rd (JArr xs) now = Inl TypeError"
| "minus_time rd (JObj kvs) now = Inl TypeError"

text \<open>
  \<^verbatim>\<open>int(x)\<close>: the identity on an \<^verbatim>\<open>int\<close>, truncation towards zero for a finite float,
  \<^verbatim>\<open>OverflowError\<close> for an infinity and \<^verbatim>\<open>ValueError\<close> for a NaN; a string is parsed by the
  builtin, which is a parameter here (\<open>None\<close> when it raises \<^verbatim>\<open>ValueError\<close>).
\<close>

fun py_int :: "(string \<Rightarrow> int option) \<Rightarrow> json \<Rightarrow> error + int" where
  "py_int p (JInt i) = Inr i"
| "py_int p (JFloat (Fin x)) = Inr (if 0 \<le> x then \<lfloor>x\<rfloor> else \<lceil>x\<rceil>)"
| "py_int p (JFloat PInf) = Inl OverflowError"
| "py_int p (JFloat NInf) = Inl OverflowError"
| "py_int p (JFloat NaN) = Inl ValueError"
| "py_int p (JBool b) = Inr (if b then 1 else 0)"
| "py_int p (JStr s) = (case p s of None \<Rightarrow> Inl ValueError | Some i \<Rightarrow> Inr i)"
| "py_int p JNull = Inl TypeError"
| "py_int p (JArr xs) = Inl TypeError"
| "py_int p (JObj kvs) = Inl TypeError"

text \<open>
  An f-string is kept as its pieces: literal text and formatted values
  (\<^verbatim>\<open>f"Zoho-oauthtoken {token}"\<close> is \<open>[Lit ''Zoho-oauthtoken '', Fmt token]\<close>), so that
  Python's \<^verbatim>\<open>str()\<close> of a decoded value needs no model.
\<close>

datatype piece = Lit string | Fmt json

type_synonym fstring = "piece list"

section \<open>The environment of the script\<close>

text \<open>
  The module constants read from the process environment (\<^verbatim>\<open>os.getenv\<close> gives \<^verbatim>\<open>None\<close> for
  an unset variable that has no default), the builtin string-to-integer parser and the
  rounding of reals to floats.
\<close>

record env =
  CLIENT_ID :: "string option"
  CLIENT_SECRET :: "string option"
  REFRESH_TOKEN :: "string option"
  API_DOMAIN :: string
  int_of_str :: "string \<Rightarrow> int option"
  round_float :: "real \<Rightarrow> pyfloat"

definition SKEW :: real where
  "SKEW = 30"

text \<open>
  A request handed to \<^verbatim>\<open>SESSION\<close>: method, URL, Authorization header, the other headers
  and the other keyword arguments.
\<close>

record request =
  http_method :: string
  url :: fstring
  authorization :: "fstring option"
  headers :: "(string \<times> json) list"
  kwargs :: "(string \<times> json) list"

text \<open>
  What comes back: a response with a status code and a body that is JSON or not, or
  no response at all (the library raises a connection error or a timeout).
\<close>

datatype payload = JsonBody json | RawBody string

datatype reply = Reply int payload | NoReply

text \<open>
  A file holding JSON text, as \<^verbatim>\<open>json.loads(path.read_text())\<close> finds it.
\<close>

datatype stored = NoFile | Unreadable | NotJson | Json json

text \<open>
  The world outside the process. The vendor is any function from the requests received
  so far (the last one being the current request) to a reply. The clock holds the value
  of the float that \<^verbatim>\<open>time.time()\<close> returns; it is moved by \<^verbatim>\<open>time.sleep\<close> only. Writing a
  local file always succeeds; printing is not modelled.
\<close>

record world =
  clock :: real
  cache_file :: stored
  history_file :: stored
  server :: "request list \<Rightarrow> reply"
  log :: "request list"
  files :: "(fstring \<times> payload) list"
  sleeps :: "nat list"

definition send :: "request \<Rightarrow> world \<Rightarrow> reply \<times> world" where
  "send rq w = (server w (log w @ [rq]), w\<lparr>log := log w @ [rq]\<rparr>)"

text \<open>\<^verbatim>\<open>resp.raise_for_status()\<close> of the requests library: 4xx and 5xx raise.\<close>

definition raise_for_status :: "int \<Rightarrow> error option" where
  "raise_for_status status = (if 400 \<le> status \<and> status < 600 then Some (HTTPError status) else None)"

text \<open>\<^verbatim>\<open>resp.json()\<close>.\<close>

fun resp_json :: "payload \<Rightarrow> error + json" where
  "resp_json (JsonBody j) = Inr j"
| "resp_json (RawBody s) = Inl JSONDecodeError"

section \<open>Token cache\<close>

text \<open>
  \<^verbatim>\<open>_load_cached_token\<close>: every exception inside the \<^verbatim>\<open>try\<close> (a missing key, a value that
  does not subtract, an integer too large for a float) ends in \<^verbatim>\<open>return None\<close>.
\<close>

definition load_cached_token :: "env \<Rightarrow> world \<Rightarrow> json" where
  "load_cached_token ev w =
     (case cache_file w of
        Json data \<Rightarrow>
          (case getitem data ''expires_at'' of
             Inl e \<Rightarrow> JNull
           | Inr ea \<Rightarrow>
               (case minus_time (round_float ev) ea (clock w) of
                  Inl e \<Rightarrow> JNull
                | Inr d \<Rightarrow>
                    if float_gt d SKEW
                    then (case getitem data ''access_token'' of Inl e \<Rightarrow> JNull | Inr t \<Rightarrow> t)
                    else JNull))
      | NoFile \<Rightarrow> JNull
      | Unreadable \<Rightarrow> JNull
      | NotJson \<Rightarrow> JNull)"

text \<open>
  \<^verbatim>\<open>_save_cached_token\<close>: \<^verbatim>\<open>time.time() + expires_in\<close> converts the integer to a float, which
  raises \<^verbatim>\<open>OverflowError\<close> when it is out of range.
\<close>

definition save_cached_token :: "env \<Rightarrow> json \<Rightarrow> int \<Rightarrow> world \<Rightarrow> error + world" where
  "save_cached_token ev token expires_in w =
     (case float_of_int (round_float ev) expires_in of
        Inl e \<Rightarrow> Inl e
      | Inr x \<Rightarrow>
          Inr (w\<lparr>cache_file :=
                   Json (JObj [(''access_token'', token),
                               (''expires_at'',
                                JFloat (float_add (round_float ev) (Fin (clock w)) x))])\<rparr>))"

definition env_str :: "string option \<Rightarrow> json" where
  "env_str v = (case v of None \<Rightarrow> JNull | Some s \<Rightarrow> JStr s)"

definition token_request :: "env \<Rightarrow> request" where
  "token_request ev =
     \<lparr>http_method = ''POST'',
      url = [Lit ''https://accounts.zoho.com/oauth/v2/token''],
      authorization = None,
      headers = [],
      kwargs = [(''params'', JObj [(''refresh_token'', env_str (REFRESH_TOKEN ev)),
                                   (''client_id'', env_str (CLIENT_ID ev)),
                                   (''client_secret'', env_str (CLIENT_SECRET ev)),
                                   (''grant_type'', JStr ''refresh_token'')])]\<rparr>"

definition get_access_token :: "env \<Rightarrow> bool \<Rightarrow> world \<Rightarrow> (error + json) \<times> world" where
  "get_access_token ev force_refresh w =
     (if \<not> force_refresh \<and> truthy (load_cached_token ev w) then (Inr (load_cached_token ev w), w)
      else
        (case send (token_request ev) w of
           (NoReply, w1) \<Rightarrow> (Inl ConnectionError, w1)
         | (Reply status body, w1) \<Rightarrow>
             (case raise_for_status status of
                Some e \<Rightarrow> (Inl e, w1)
              | None \<Rightarrow>
                  (case resp_json body of
                     Inl e \<Rightarrow> (Inl e, w1)
                   | Inr data \<Rightarrow>
                       (case getitem data ''access_token'' of
                          Inl e \<Rightarrow> (Inl e, w1)
                        | Inr token \<Rightarrow>
                            (case dict_get data ''expires_in'' (JInt 3600) of
                               Inl e \<Rightarrow> (Inl e, w1)
                             | Inr ei \<Rightarrow>
                                 (case py_int (int_of_str ev) ei of
                                    Inl e \<Rightarrow> (Inl e, w1)
                                  | Inr expires_in \<Rightarrow>
                                      (case save_cached_token ev token expires_in w1 of
                                         Inl e \<Rightarrow> (Inl e, w1)
                                       | Inr w2 \<Rightarrow> (Inr token, w2)))))))))"

section \<open>Authenticated request wrapper\<close>

definition auth_header :: "json \<Rightarrow> fstring" where
  "auth_header token = [Lit ''Zoho-oauthtoken '', Fmt token]"

text \<open>
  \<^verbatim>\<open>kwargs.pop("headers", {})\<close> followed by \<^verbatim>\<open>headers["Authorization"] = ...\<close>: the headers
  the caller gave, where only a dict accepts the assignment.
\<close>

definition caller_headers :: "(string \<times> json) list \<Rightarrow> error + (string \<times> json) list" where
  "caller_headers kw =
     (case map_of kw ''headers'' of
        None \<Rightarrow> Inr []
      | Some (JObj hs) \<Rightarrow> Inr hs
      | Some other \<Rightarrow> Inl TypeError)"

text \<open>
  The keyword arguments that \<^verbatim>\<open>SESSION.request(method, url, headers=headers, **kwargs,
  timeout=60)\<close> accepts in \<^verbatim>\<open>kwargs\<close>: the parameters of \<^verbatim>\<open>Session.request\<close> that the call
  does not give itself. Any other name (\<^verbatim>\<open>timeout\<close> and \<^verbatim>\<open>url\<close> among them) makes the call
  raise \<^verbatim>\<open>TypeError\<close>.
\<close>

definition session_keywords :: "string list" where
  "session_keywords =
     [''params'', ''data'', ''cookies'', ''files'', ''auth'', ''allow_redirects'', ''proxies'',
      ''hooks'', ''stream'', ''verify'', ''cert'', ''json'']"

definition accepted :: "(string \<times> json) list \<Rightarrow> bool" where
  "accepted kw = list_all (\<lambda>k. k \<in> set session_keywords) (map fst kw)"

text \<open>
  The request of one attempt: the Authorization header replaces one the caller gave, and
  \<^verbatim>\<open>headers\<close> is no longer among the keyword arguments passed on.
\<close>

definition api_call :: "env \<Rightarrow> string \<Rightarrow> string \<Rightarrow> (string \<times> json) list \<Rightarrow> json \<Rightarrow> request" where
  "api_call ev m endpoint kw token =
     \<lparr>http_method = m, url = [Lit (API_DOMAIN ev @ endpoint)],
      authorization = Some (auth_header token),
      headers = (case caller_headers kw of
                   Inl e \<Rightarrow> []
                 | Inr hs \<Rightarrow> AList.delete ''Authorization'' hs),
      kwargs = AList.delete ''headers'' kw\<rparr>"

text \<open>
  The loop \<^verbatim>\<open>for attempt in (0, 1)\<close> of \<^verbatim>\<open>api_request\<close>, over the attempts that remain;
  \<open>resp\<close> is the status of the last response (unbound before the first one). The first
  attempt pops \<^verbatim>\<open>headers\<close> from the keyword arguments, so the second one starts from an
  empty header dict. The token is fetched before the header is assigned, and the header
  is assigned before the session is called.
\<close>

fun api_attempts ::
  "env \<Rightarrow> string \<Rightarrow> string \<Rightarrow> (string \<times> json) list \<Rightarrow> nat list \<Rightarrow> int option \<Rightarrow> world
     \<Rightarrow> (error + json) \<times> world" where
  "api_attempts ev m endpoint kw [] resp w =
     (case resp of
        None \<Rightarrow> (Inl UnboundLocalError, w)
      | Some status \<Rightarrow>
          (case raise_for_status status of Some e \<Rightarrow> (Inl e, w) | None \<Rightarrow> (Inr JNull, w)))"
| "api_attempts ev m endpoint kw (attempt # rest) resp w =
     (case get_access_token ev False w of
        (Inl e, w1) \<Rightarrow> (Inl e, w1)
      | (Inr token, w1) \<Rightarrow>
          (case caller_headers kw of
             Inl e \<Rightarrow> (Inl e, w1)
           | Inr hs \<Rightarrow>
          if \<not> accepted (AList.delete ''headers'' kw) then (Inl TypeError, w1)
          else
          (case send (api_call ev m endpoint kw token) w1 of
             (NoReply, w2) \<Rightarrow> (Inl ConnectionError, w2)
           | (Reply status body, w2) \<Rightarrow>
               if status \<noteq> 401
               then (case raise_for_status status of
                       Some e \<Rightarrow> (Inl e, w2)
                     | None \<Rightarrow> (case resp_json body of Inl e \<Rightarrow> (Inl e, w2) | Inr j \<Rightarrow> (Inr j, w2)))
               else (case get_access_token ev True w2 of
                       (Inl e, w3) \<Rightarrow> (Inl e, w3)
                     | (Inr t, w3) \<Rightarrow>
                         api_attempts ev m endpoint (AList.delete ''headers'' kw) rest
                           (Some status) w3))))"

definition api_request ::
  "env \<Rightarrow> string \<Rightarrow> string \<Rightarrow> (string \<times> json) list \<Rightarrow> world \<Rightarrow> (error + json) \<times> world" where
  "api_request ev m endpoint kw w = api_attempts ev m endpoint kw [0, 1] None w"


section \<open>Chunking\<close>

text \<open>
  The generator \<^verbatim>\<open>chunked\<close>: each batch is the next element and up to \<open>size - 1\<close> more.
  The script calls it with size 100 only (\<^verbatim>\<open>islice\<close> rejects the negative count that
  size 0 would give).
\<close>

fun chunked :: "'a list \<Rightarrow> nat \<Rightarrow> 'a list list" where
  "chunked [] n = []"
| "chunked (first # it) n = (first # take (n - 1) it) # chunked (drop (n - 1) it) n"

section \<open>Bulk read jobs\<close>

definition read_job_payload :: "string \<Rightarrow> json" where
  "read_job_payload module_name =
     JObj [(''query'', JObj [(''module'', JObj [(''api_name'', JStr module_name)]),
                             (''fields'', JArr [JStr ''id'']),
                             (''criteria'', JObj [(''field'', JObj [(''api_name'', JStr ''Due_Date'')]),
                                                  (''comparator'', JStr ''less_than''),
                                                  (''value'', JStr ''2025-05-01'')])])]"

text \<open>\<^verbatim>\<open>res["data"][0]["details"]["id"]\<close>.\<close>

definition created_id :: "json \<Rightarrow> error + json" where
  "created_id res =
     (case getitem res ''data'' of
        Inl e \<Rightarrow> Inl e
      | Inr d \<Rightarrow>
          (case getitem0 d of
             Inl e \<Rightarrow> Inl e
           | Inr j \<Rightarrow>
               (case getitem j ''details'' of Inl e \<Rightarrow> Inl e | Inr dt \<Rightarrow> getitem dt ''id'')))"

text \<open>
  A dict display \<^verbatim>\<open>{k1: v1, k2: v2, ...}\<close>: the items are stored from left to right, a
  repeated key keeps its first position and takes the later value.
\<close>

definition dict_display :: "(string \<times> json) list \<Rightarrow> (string \<times> json) list" where
  "dict_display kvs = foldl (\<lambda>d (k, v). AList.update k v d) [] kvs"

text \<open>
  \<^verbatim>\<open>create_bulk_read_job\<close>. The first key of \<^verbatim>\<open>dataToSave\<close> is written \<^verbatim>\<open>name\<close> without
  quotes in the source: it is the value of the parameter. The parameter is a string, as
  the command line passes it (its default \<^verbatim>\<open>None\<close> is never used by the script). The id is
  read from the response before the history file is looked at.
\<close>

definition create_bulk_read_job :: "env \<Rightarrow> string \<Rightarrow> string \<Rightarrow> world \<Rightarrow> (error + json) \<times> world" where
  "create_bulk_read_job ev module_name name w =
     (case api_request ev ''POST'' ''/crm/bulk/v8/read'' [(''json'', read_job_payload module_name)] w of
        (Inl e, w1) \<Rightarrow> (Inl e, w1)
      | (Inr res, w1) \<Rightarrow>
          (case created_id res of
             Inl e \<Rightarrow> (Inl e, w1)
           | Inr jid \<Rightarrow>
               (let dataToSave = JObj (dict_display [(name, JStr name), (''id'', jid),
                                                     (''module'', JStr module_name)])
                in case history_file w1 of
                     NoFile \<Rightarrow> (Inr jid, w1\<lparr>history_file := Json (JArr [dataToSave])\<rparr>)
                   | Unreadable \<Rightarrow> (Inl PermissionError, w1)
                   | NotJson \<Rightarrow> (Inl JSONDecodeError, w1)
                   | Json (JArr history) \<Rightarrow>
                       (Inr jid, w1\<lparr>history_file := Json (JArr (history @ [dataToSave]))\<rparr>)
                   | Json other \<Rightarrow> (Inl AttributeError, w1))))"

text \<open>One round of the loop of \<^verbatim>\<open>check_job_status\<close>, up to the \<^verbatim>\<open>time.sleep\<close>.\<close>

datatype poll = Returned json world | Raised error world | Pending world

definition job_endpoint :: "string \<Rightarrow> string" where
  "job_endpoint job_id = ''/crm/bulk/v8/read/'' @ job_id"

definition poll_once :: "env \<Rightarrow> string \<Rightarrow> world \<Rightarrow> poll" where
  "poll_once ev job_id w =
     (case api_request ev ''GET'' (job_endpoint job_id) [] w of
        (Inl e, w1) \<Rightarrow> Raised e w1
      | (Inr res, w1) \<Rightarrow>
          (case getitem res ''data'' of
             Inl e \<Rightarrow> Raised e w1
           | Inr d \<Rightarrow>
               (case getitem0 d of
                  Inl e \<Rightarrow> Raised e w1
                | Inr job \<Rightarrow>
                    (case getitem job ''state'' of
                       Inl e \<Rightarrow> Raised e w1
                     | Inr state \<Rightarrow>
                         if state = JStr ''COMPLETED''
                         then (case getitem job ''result'' of
                                 Inl e \<Rightarrow> Raised e w1
                               | Inr r \<Rightarrow> Returned r w1)
                         else if state = JStr ''FAILURE'' \<or> state = JStr ''FAILED''
                         then Raised RuntimeError w1
                         else Pending w1))))"

definition sleep :: "nat \<Rightarrow> world \<Rightarrow> world" where
  "sleep d w = w\<lparr>clock := clock w + real d, sleeps := sleeps w @ [d]\<rparr>"

text \<open>\<^verbatim>\<open>while True\<close>: the result is \<open>None\<close> when the loop never ends.\<close>

partial_function (option) check_job_status ::
  "env \<Rightarrow> string \<Rightarrow> world \<Rightarrow> ((error + json) \<times> world) option" where
  "check_job_status ev job_id w =
     (case poll_once ev job_id w of
        Returned r w1 \<Rightarrow> Some (Inr r, w1)
      | Raised e w1 \<Rightarrow> Some (Inl e, w1)
      | Pending w1 \<Rightarrow> check_job_status ev job_id (sleep 5 w1))"

text \<open>
  \<^verbatim>\<open>download_all_pages\<close>. The response of the download is written to the file whatever
  its status; \<^verbatim>\<open>next_token\<close> and \<^verbatim>\<open>more\<close> (here \<open>more_records\<close>) are read and never used.
\<close>

definition download_request :: "env \<Rightarrow> json \<Rightarrow> json \<Rightarrow> request" where
  "download_request ev token u =
     \<lparr>http_method = ''GET'', url = [Lit (API_DOMAIN ev), Fmt u],
      authorization = Some (auth_header token), headers = [], kwargs = []\<rparr>"

definition zip_name :: "string \<Rightarrow> json \<Rightarrow> fstring" where
  "zip_name out_prefix page = [Lit out_prefix, Lit ''_page_'', Fmt page, Lit ''.zip'']"

definition download_all_pages :: "env \<Rightarrow> string \<Rightarrow> string \<Rightarrow> world \<Rightarrow> (error + unit) \<times> world" where
  "download_all_pages ev job_id out_prefix w =
     (case api_request ev ''GET'' (job_endpoint job_id) [] w of
        (Inl e, w1) \<Rightarrow> (Inl e, w1)
      | (Inr res, w1) \<Rightarrow>
          (case getitem res ''data'' of
             Inl e \<Rightarrow> (Inl e, w1)
           | Inr d \<Rightarrow>
          (case getitem0 d of
             Inl e \<Rightarrow> (Inl e, w1)
           | Inr job \<Rightarrow>
          (case getitem job ''result'' of
             Inl e \<Rightarrow> (Inl e, w1)
           | Inr result \<Rightarrow>
          (case getitem result ''page'' of
             Inl e \<Rightarrow> (Inl e, w1)
           | Inr page \<Rightarrow>
          (case dict_get result ''next_page_token'' JNull of
             Inl e \<Rightarrow> (Inl e, w1)
           | Inr next_token \<Rightarrow>
          (case dict_get result ''more_records'' (JBool False) of
             Inl e \<Rightarrow> (Inl e, w1)
           | Inr more_records \<Rightarrow>
          (case get_access_token ev False w1 of
             (Inl e, w2) \<Rightarrow> (Inl e, w2)
           | (Inr token, w2) \<Rightarrow>
          (case getitem result ''download_url'' of
             Inl e \<Rightarrow> (Inl e, w2)
           | Inr u \<Rightarrow>
          (case send (download_request ev token u) w2 of
             (NoReply, w3) \<Rightarrow> (Inl ConnectionError, w3)
           | (Reply status body, w3) \<Rightarrow>
               (Inr (), w3\<lparr>files := files w3 @ [(zip_name out_prefix page, body)]\<rparr>)))))))))))"

section \<open>Batch delete\<close>

text \<open>
  The CSV file as \<^verbatim>\<open>csv.reader\<close> parses it: the list of its rows, a blank line being the
  empty row; or no file at the path.
\<close>

datatype csv_file = NoCsv | Rows "string list list"

text \<open>\<^verbatim>\<open>DictReader.fieldnames\<close>: the first row, \<^verbatim>\<open>None\<close> for an empty file.\<close>

definition fieldnames :: "string list list \<Rightarrow> string list option" where
  "fieldnames rows = (case rows of [] \<Rightarrow> None | h # rest \<Rightarrow> Some h)"

text \<open>
  The dict that \<^verbatim>\<open>DictReader\<close> builds for a row: \<^verbatim>\<open>dict(zip(fieldnames, row))\<close>, then
  \<^verbatim>\<open>None\<close> for each field name beyond a short row. (The surplus of a long row goes
  under the key \<^verbatim>\<open>None\<close>, which no string key reads.)
\<close>

definition row_dict :: "string list \<Rightarrow> string list \<Rightarrow> (string \<times> string option) list" where
  "row_dict fs row =
     foldl (\<lambda>d k. AList.update k None d)
       (foldl (\<lambda>d (k, v). AList.update k (Some v) d) [] (zip fs row))
       (drop (length row) fs)"

text \<open>The rows that \<^verbatim>\<open>for row in reader\<close> visits: blank lines are skipped.\<close>

definition data_rows :: "string list list \<Rightarrow> string list list" where
  "data_rows rows = filter (\<lambda>r. r \<noteq> []) (tl rows)"

text \<open>The reading part of \<^verbatim>\<open>delete_batch_from_file\<close>: the list \<^verbatim>\<open>ids\<close>.\<close>

fun read_id_rows :: "string list \<Rightarrow> string list list \<Rightarrow> error + string option list" where
  "read_id_rows fs [] = Inr []"
| "read_id_rows fs (row # rest) =
     (case map_of (row_dict fs row) ''Id'' of
        None \<Rightarrow> Inl KeyError
      | Some v \<Rightarrow> (case read_id_rows fs rest of Inl e \<Rightarrow> Inl e | Inr vs \<Rightarrow> Inr (v # vs)))"

definition read_ids :: "csv_file \<Rightarrow> error + string option list" where
  "read_ids f =
     (case f of
        NoCsv \<Rightarrow> Inl FileNotFoundError
      | Rows rows \<Rightarrow>
          (case fieldnames rows of
             None \<Rightarrow> Inl TypeError
           | Some fs \<Rightarrow>
               if ''Id'' \<notin> set fs then Inl RuntimeError
               else read_id_rows fs (data_rows rows)))"

text \<open>\<^verbatim>\<open>sep.join(batch)\<close>: an item that is \<^verbatim>\<open>None\<close> raises \<^verbatim>\<open>TypeError\<close>.\<close>

fun join_strs :: "string \<Rightarrow> string list \<Rightarrow> string" where
  "join_strs sep [] = []"
| "join_strs sep [x] = x"
| "join_strs sep (x # y # ys) = x @ sep @ join_strs sep (y # ys)"

definition py_join :: "string \<Rightarrow> string option list \<Rightarrow> error + string" where
  "py_join sep batch = (case those batch of None \<Rightarrow> Inl TypeError | Some xs \<Rightarrow> Inr (join_strs sep xs))"

definition delete_request :: "env \<Rightarrow> string \<Rightarrow> json \<Rightarrow> string \<Rightarrow> request" where
  "delete_request ev mod_name token ids_str =
     \<lparr>http_method = ''DELETE'',
      url = [Lit (API_DOMAIN ev @ ''/crm/v8/'' @ mod_name @ ''?ids='' @ ids_str @ ''&wf_trigger=true'')],
      authorization = Some (auth_header token), headers = [], kwargs = []\<rparr>"

text \<open>
  The loop \<^verbatim>\<open>for batch in chunked(ids, 100)\<close>, over the batches that remain, with the
  running \<^verbatim>\<open>total_deleted\<close>. It gives the exception raised (if any) and the value of
  \<^verbatim>\<open>total_deleted\<close> when it stops.
\<close>

fun delete_batches ::
  "env \<Rightarrow> string \<Rightarrow> json \<Rightarrow> string option list list \<Rightarrow> nat \<Rightarrow> world
     \<Rightarrow> (error option \<times> nat) \<times> world" where
  "delete_batches ev mod_name token [] total_deleted w = ((None, total_deleted), w)"
| "delete_batches ev mod_name token (batch # rest) total_deleted w =
     (case py_join '','' batch of
        Inl e \<Rightarrow> ((Some e, total_deleted), w)
      | Inr ids_str \<Rightarrow>
          (case send (delete_request ev mod_name token ids_str) w of
             (NoReply, w1) \<Rightarrow> ((Some ConnectionError, total_deleted), w1)
           | (Reply status body, w1) \<Rightarrow>
               (case raise_for_status status of
                  Some e \<Rightarrow> ((Some e, total_deleted), w1)
                | None \<Rightarrow> delete_batches ev mod_name token rest (total_deleted + length batch) w1)))"

definition delete_batch_from_file ::
  "env \<Rightarrow> string \<Rightarrow> csv_file \<Rightarrow> world \<Rightarrow> (error option \<times> nat) \<times> world" where
  "delete_batch_from_file ev mod_name f w =
     (case read_ids f of
        Inl e \<Rightarrow> ((Some e, 0), w)
      | Inr ids \<Rightarrow>
          (case get_access_token ev False w of
             (Inl e, w1) \<Rightarrow> ((Some e, 0), w1)
           | (Inr token, w1) \<Rightarrow> delete_batches ev mod_name token (chunked ids 100) 0 w1))"

text \<open>The request that the loop sends for a batch of identifiers.\<close>

definition del_req :: "env \<Rightarrow> string \<Rightarrow> json \<Rightarrow> string list \<Rightarrow> request" where
  "del_req ev mod_name token b = delete_request ev mod_name token (join_strs '','' b)"

text \<open>
  The world at the start of round \<open>n\<close> of the polling loop, when each of the first \<open>n\<close>
  rounds saw a state that is not terminal and slept.
\<close>

fun rounds :: "nat \<Rightarrow> env \<Rightarrow> string \<Rightarrow> world \<Rightarrow> world option" where
  "rounds 0 ev job_id w = Some w"
| "rounds (Suc n) ev job_id w =
     (case poll_once ev job_id w of
        Pending w1 \<Rightarrow> rounds n ev job_id (sleep 5 w1)
      | Returned r w1 \<Rightarrow> None
      | Raised e w1 \<Rightarrow> None)"

text \<open>The world in which a round of the polling loop ends.\<close>

fun poll_world :: "poll \<Rightarrow> world" where
  "poll_world (Returned r w) = w"
| "poll_world (Raised e w) = w"
| "poll_world (Pending w) = w"

section \<open>Example environments\<close>

text \<open>
  A vendor that answers the k-th request it receives with the k-th reply of a list, and
  stops answering after that; an environment, a clock at 1000 and a cache file to start
  from; answers of the token endpoint and of the job endpoints.
\<close>

definition scripted :: "reply list \<Rightarrow> request list \<Rightarrow> reply" where
  "scripted rs lg = (if 0 < length lg \<and> length lg \<le> length rs then rs ! (length lg - 1) else NoReply)"

text \<open>
  A rounding that is exact inside the range of binary64 and infinite outside; every
  number of the examples below is a binary64 value, which any rounding leaves as it is.
\<close>

definition in_range :: "real \<Rightarrow> pyfloat" where
  "in_range x = (if \<bar>x\<bar> < 2 ^ 1024 then Fin x else if 0 < x then PInf else NInf)"

definition ev0 :: env where
  "ev0 = \<lparr>CLIENT_ID = Some ''client'', CLIENT_SECRET = Some ''secret'',
          REFRESH_TOKEN = Some ''refresh'', API_DOMAIN = ''https://www.zohoapis.com'',
          int_of_str = (\<lambda>s. None), round_float = in_range\<rparr>"

definition world0 :: "stored \<Rightarrow> reply list \<Rightarrow> world" where
  "world0 cache rs =
     \<lparr>clock = 1000, cache_file = cache, history_file = NoFile, server = scripted rs,
      log = [], files = [], sleeps = []\<rparr>"

definition token_ok :: reply where
  "token_ok = Reply 200 (JsonBody (JObj [(''access_token'', JStr ''fresh''), (''expires_in'', JInt 3600)]))"

definition cache_with :: "json \<Rightarrow> real \<Rightarrow> stored" where
  "cache_with token expires_at = Json (JObj [(''access_token'', token), (''expires_at'', JFloat (Fin expires_at))])"

definition created_ok :: reply where
  "created_ok = Reply 201 (JsonBody (JObj [(''data'', JArr [JObj [(''details'', JObj [(''id'', JStr ''555'')])]])]))"

definition job_result :: json where
  "job_result = JObj [(''page'', JInt 1), (''download_url'', JStr ''/crm/bulk/v8/read/555/result''),
                      (''more_records'', JBool True), (''next_page_token'', JStr ''next'')]"

definition job_reply :: "string \<Rightarrow> reply" where
  "job_reply state = Reply 200 (JsonBody (JObj [(''data'', JArr [JObj [(''state'', JStr state), (''result'', job_result)]])]))"

definition fresh_world :: "reply list \<Rightarrow> world" where
  "fresh_world rs = world0 (cache_with (JStr ''cached'') 5000) rs"

definition two_ids :: csv_file where
  "two_ids = Rows [[''Name'', ''Id''], [''a'', ''1''], [], [''b'', ''2'']]"

definition many_ids :: "string list" where
  "many_ids = replicate 101 ''7''"

section \<open>Properties of the chunking\<close>

lemma concat_chunked: "concat (chunked xs n) = xs"
  by (induction xs n rule: chunked.induct) auto

lemma chunked_nth:
  "0 < n \<Longrightarrow> i < length (chunked xs n) \<Longrightarrow> chunked xs n ! i = take n (drop (i * n) xs)"
proof (induction xs n arbitrary: i rule: chunked.induct)
  case (1 n)
  then show ?case by simp
next
  case (2 first it n)
  then obtain m where n: "n = Suc m" by (cases n) auto
  show ?case
  proof (cases i)
    case 0
    with n show ?thesis by simp
  next
    case (Suc j)
    have "chunked (drop (n - 1) it) n ! j = take n (drop (j * n) (drop (n - 1) it))"
      using 2 Suc by simp
    moreover have "j * n + (n - 1) = m + j * Suc m" using n by simp
    ultimately show ?thesis using Suc n by (simp add: ac_simps)
  qed
qed

lemma length_chunked: "0 < n \<Longrightarrow> length (chunked xs n) = (length xs + n - 1) div n"
proof (induction xs n rule: chunked.induct)
  case (1 n)
  then show ?case by simp
next
  case (2 first it n)
  then obtain m where n: "n = Suc m" by (cases n) auto
  have ih: "length (chunked (drop m it) n) = (length it - m + m) div Suc m"
    using 2 n by simp
  have goal: "length (chunked (first # it) n) = Suc (length (chunked (drop m it) n))"
    using n by simp
  have "(length (first # it) + n - 1) div n = (length it + Suc m) div Suc m"
    using n by simp
  also have "\<dots> = Suc (length it div Suc m)"
    by (simp only: div_add_self2)
  finally have rhs: "(length (first # it) + n - 1) div n = Suc (length it div Suc m)" .
  show ?case
  proof (cases "length it \<le> m")
    case True
    then have "(length it - m + m) div Suc m = 0" "length it div Suc m = 0" by simp_all
    then show ?thesis using goal ih rhs by simp
  next
    case False
    then have "length it - m + m = length it" by simp
    then show ?thesis using goal ih rhs by simp
  qed
qed

lemma chunked_start:
  assumes "0 < n" "i < length (chunked xs n)"
  shows "i * n < length xs"
proof -
  have "i < (length xs + n - 1) div n" using assms length_chunked[of n xs] by simp
  then have "Suc i \<le> (length xs + n - 1) div n" by simp
  then have "Suc i * n \<le> length xs + n - 1"
    using assms(1) by (simp add: less_eq_div_iff_mult_less_eq)
  then show ?thesis using assms(1) by (cases n) auto
qed

lemma chunked_sizes:
  assumes "0 < n" "i < length (chunked xs n)"
  shows "0 < length (chunked xs n ! i)" "length (chunked xs n ! i) \<le> n"
    "Suc i < length (chunked xs n) \<Longrightarrow> length (chunked xs n ! i) = n"
proof -
  have nth: "chunked xs n ! i = take n (drop (i * n) xs)" using assms by (rule chunked_nth)
  have lt: "i * n < length xs" using assms by (rule chunked_start)
  show "0 < length (chunked xs n ! i)" using nth lt assms(1) by simp
  show "length (chunked xs n ! i) \<le> n" using nth by simp
  show "length (chunked xs n ! i) = n" if "Suc i < length (chunked xs n)"
  proof -
    have "Suc i * n < length xs" using assms(1) that by (rule chunked_start)
    then show ?thesis using nth by simp
  qed
qed

lemma ceil_div_100: "nat \<lceil>real N / 100\<rceil> = (N + 99) div 100"
  by linarith

text \<open>
  Claim C3. For a list of \<open>N\<close> identifiers, \<open>chunked ids 100\<close> has \<open>ceil(N/100)\<close> batches;
  each batch is non-empty and has at most 100 elements, every batch but the last has
  exactly 100; batch \<open>i\<close> is the slice of the list from position \<open>100 * i\<close>, and the batches
  concatenated in order give the list back, so each identifier sits in exactly one batch.
\<close>

theorem chunked_partition:
  "concat (chunked ids 100) = ids \<and>
   length (chunked ids 100) = nat \<lceil>real (length ids) / 100\<rceil> \<and>
   (\<forall>i < length (chunked ids 100).
      0 < length (chunked ids 100 ! i) \<and> length (chunked ids 100 ! i) \<le> 100 \<and>
      (Suc i < length (chunked ids 100) \<longrightarrow> length (chunked ids 100 ! i) = 100) \<and>
      chunked ids 100 ! i = take 100 (drop (i * 100) ids))"
proof (intro conjI allI impI)
  show "concat (chunked ids 100) = ids" by (rule concat_chunked)
  show "length (chunked ids 100) = nat \<lceil>real (length ids) / 100\<rceil>"
    using length_chunked[of 100 ids] by (simp add: ceil_div_100)
next
  fix i assume i: "i < length (chunked ids 100)"
  show "0 < length (chunked ids 100 ! i)" using chunked_sizes(1)[OF _ i] by simp
  show "length (chunked ids 100 ! i) \<le> 100" using chunked_sizes(2)[OF _ i] by simp
  show "chunked ids 100 ! i = take 100 (drop (i * 100) ids)" using chunked_nth[OF _ i] by simp
  show "length (chunked ids 100 ! i) = 100" if "Suc i < length (chunked ids 100)"
    using chunked_sizes(3)[OF _ i that] by simp
qed

theorem chunked_partition_witness:
  "Suc 0 < length (chunked (replicate 250 (0::nat)) 100) \<and>
   length (chunked (replicate 250 (0::nat)) 100) = 3 \<and>
   length (chunked (replicate 250 (0::nat)) 100 ! 0) = 100 \<and>
   concat (chunked (replicate 250 (0::nat)) 100) = replicate 250 0"
proof -
  have h: "Suc 0 < length (chunked (replicate 250 (0::nat)) 100)" by code_simp
  have c: "nat \<lceil>real (length (replicate 250 (0::nat))) / 100\<rceil> = 3" by simp
  from chunked_partition[of "replicate 250 (0::nat)"] h c show ?thesis by auto
qed

section \<open>Properties of the token cache\<close>

lemma load_cached_token_cases:
  "load_cached_token ev w = t \<and> t \<noteq> JNull \<longleftrightarrow>
   t \<noteq> JNull \<and> (\<exists>data ea d. cache_file w = Json data \<and> getitem data ''expires_at'' = Inr ea \<and>
      minus_time (round_float ev) ea (clock w) = Inr d \<and> float_gt d SKEW \<and>
      getitem data ''access_token'' = Inr t)"
  by (auto simp: load_cached_token_def split: stored.splits sum.splits)

lemma send_log [simp]: "log (snd (send rq w)) = log w @ [rq]"
  by (simp add: send_def)

lemma refresh_log: "log (snd (get_access_token ev True w)) = log w @ [token_request ev]"
  by (simp add: get_access_token_def send_def save_cached_token_def
      split: reply.splits option.splits sum.splits)

lemma get_access_token_False:
  "get_access_token ev False w =
     (if truthy (load_cached_token ev w) then (Inr (load_cached_token ev w), w)
      else get_access_token ev True w)"
  by (simp add: get_access_token_def)

text \<open>
  Claim C9. When the cache file is missing, unreadable or not JSON, or when reading
  \<open>expires_at\<close> or \<open>access_token\<close> from it fails, \<open>load_cached_token\<close> gives \<open>None\<close>, and
  \<open>get_access_token\<close> does what a forced refresh does: it sends the token request; the
  cache itself raises nothing.
\<close>

theorem cache_miss_refreshes:
  assumes "cache_file w = NoFile \<or> cache_file w = Unreadable \<or> cache_file w = NotJson \<or>
           (\<exists>data e. cache_file w = Json data \<and>
              (getitem data ''expires_at'' = Inl e \<or> getitem data ''access_token'' = Inl e))"
  shows "load_cached_token ev w = JNull \<and>
         get_access_token ev False w = get_access_token ev True w \<and>
         log (snd (get_access_token ev False w)) = log w @ [token_request ev]"
proof -
  have n: "load_cached_token ev w = JNull"
    using assms by (auto simp: load_cached_token_def split: stored.splits sum.splits)
  then have "get_access_token ev False w = get_access_token ev True w"
    by (simp add: get_access_token_False)
  then show ?thesis using n refresh_log[of ev w] by simp
qed

lemma in_range_small: "\<bar>x\<bar> < 2 ^ 1024 \<Longrightarrow> in_range x = Fin x"
  by (simp add: in_range_def)

lemma round_ev0 [simp]: "round_float ev0 = in_range" "int_of_str ev0 = (\<lambda>s. None)"
  by (simp_all add: ev0_def)

lemma float_sub_in_range [simp]:
  "\<bar>x - y\<bar> < 2 ^ 1024 \<Longrightarrow> float_sub in_range (Fin x) (Fin y) = Fin (x - y)"
  by (simp add: float_sub_def in_range_def)

lemma float_add_in_range [simp]:
  "\<bar>x + y\<bar> < 2 ^ 1024 \<Longrightarrow> float_add in_range (Fin x) (Fin y) = Fin (x + y)"
  by (simp add: in_range_def)

lemma float_of_int_in_range [simp]:
  "\<bar>real_of_int i\<bar> < 2 ^ 1024 \<Longrightarrow> float_of_int in_range i = Inr (Fin (real_of_int i))"
  by (simp add: float_of_int_def in_range_def)

lemma in_range_values [simp]:
  "in_range 3600 = Fin 3600" "in_range 4600 = Fin 4600" "in_range 4000 = Fin 4000"
  "in_range 30 = Fin 30" "in_range 10 = Fin 10" "in_range 3995 = Fin 3995"
  "in_range 4605 = Fin 4605"
  by (simp_all add: in_range_def)

theorem cache_miss_refreshes_witness:
  "load_cached_token ev0 (world0 (Json (JObj [(''expires_at'', JInt 5000)])) [token_ok]) = JNull \<and>
   get_access_token ev0 False (world0 (Json (JObj [(''expires_at'', JInt 5000)])) [token_ok])
     = get_access_token ev0 True (world0 (Json (JObj [(''expires_at'', JInt 5000)])) [token_ok]) \<and>
   fst (get_access_token ev0 False (world0 (Json (JObj [(''expires_at'', JInt 5000)])) [token_ok]))
     = Inr (JStr ''fresh'')"
proof -
  have h: "getitem (JObj [(''expires_at'', JInt 5000)]) ''access_token'' = Inl KeyError" by simp
  have c: "cache_file (world0 (Json (JObj [(''expires_at'', JInt 5000)])) [token_ok])
             = Json (JObj [(''expires_at'', JInt 5000)])" by (simp add: world0_def)
  have r: "fst (get_access_token ev0 True (world0 (Json (JObj [(''expires_at'', JInt 5000)])) [token_ok]))
     = Inr (JStr ''fresh'')"
    by (simp add: get_access_token_def send_def world0_def scripted_def token_ok_def
        raise_for_status_def token_request_def save_cached_token_def float_of_int_def)
  from cache_miss_refreshes[of "world0 (Json (JObj [(''expires_at'', JInt 5000)])) [token_ok]" ev0] h c r
  show ?thesis by auto
qed

lemma refresh_neq: "get_access_token ev True w \<noteq> (r, w)"
proof
  assume "get_access_token ev True w = (r, w)"
  then have "log (snd (get_access_token ev True w)) = log w" by simp
  then show False by (simp add: refresh_log)
qed

lemma refresh_success:
  assumes "server w (log w @ [token_request ev]) = Reply status (JsonBody body)"
    and "raise_for_status status = None"
    and "getitem body ''access_token'' = Inr tok"
    and "dict_get body ''expires_in'' (JInt 3600) = Inr ei"
    and "py_int (int_of_str ev) ei = Inr n"
    and "save_cached_token ev tok n (w\<lparr>log := log w @ [token_request ev]\<rparr>) = Inr w2"
  shows "get_access_token ev True w = (Inr tok, w2)"
  using assms by (simp add: get_access_token_def send_def)

lemma refresh_overflow:
  assumes "server w (log w @ [token_request ev]) = Reply status (JsonBody body)"
    and "raise_for_status status = None"
    and "getitem body ''access_token'' = Inr tok"
    and "dict_get body ''expires_in'' (JInt 3600) = Inr ei"
    and "py_int (int_of_str ev) ei = Inr n"
    and "float_of_int (round_float ev) n = Inl e"
  shows "get_access_token ev True w = (Inl e, w\<lparr>log := log w @ [token_request ev]\<rparr>)"
  using assms by (simp add: get_access_token_def send_def save_cached_token_def)

text \<open>
  Claim C1, amended. Without \<open>force_refresh\<close>, the cached token \<open>t\<close> is returned, with no
  request sent, exactly when the cache file is JSON, Python's \<open>expires_at - time.time()\<close>
  on its \<open>expires_at\<close> raises nothing (the value is a number, and an integer is within the
  range of floats) and gives a float greater than \<open>SKEW\<close>, and its \<open>access_token\<close> is \<open>t\<close> and
  \<open>t\<close> is truthy. In every other case the call is a refresh: one request to the token
  endpoint, and when the answer is not 4xx/5xx and is a JSON object with \<open>access_token\<close>
  and an \<open>expires_in\<close> that \<open>int()\<close> converts and that can be added to the current time
  (\<open>save_cached_token\<close> does not raise \<open>OverflowError\<close>), that token is returned and the cache
  is overwritten with it.
\<close>

theorem get_access_token_cache_rule:
  "(get_access_token ev False w = (Inr t, w) \<longleftrightarrow>
      truthy t \<and> (\<exists>data ea d. cache_file w = Json data \<and> getitem data ''expires_at'' = Inr ea \<and>
         minus_time (round_float ev) ea (clock w) = Inr d \<and> float_gt d SKEW \<and>
         getitem data ''access_token'' = Inr t)) \<and>
   ((\<forall>t'. get_access_token ev False w \<noteq> (Inr t', w)) \<longrightarrow>
      get_access_token ev False w = get_access_token ev True w \<and>
      log (snd (get_access_token ev False w)) = log w @ [token_request ev] \<and>
      (\<forall>status body tok ei n w2.
         server w (log w @ [token_request ev]) = Reply status (JsonBody body) \<and>
         raise_for_status status = None \<and> getitem body ''access_token'' = Inr tok \<and>
         dict_get body ''expires_in'' (JInt 3600) = Inr ei \<and> py_int (int_of_str ev) ei = Inr n \<and>
         save_cached_token ev tok n (w\<lparr>log := log w @ [token_request ev]\<rparr>) = Inr w2 \<longrightarrow>
         get_access_token ev False w = (Inr tok, w2)))"
proof (intro conjI impI)
  show "get_access_token ev False w = (Inr t, w) \<longleftrightarrow>
      truthy t \<and> (\<exists>data ea d. cache_file w = Json data \<and> getitem data ''expires_at'' = Inr ea \<and>
         minus_time (round_float ev) ea (clock w) = Inr d \<and> float_gt d SKEW \<and>
         getitem data ''access_token'' = Inr t)"
    (is "?L \<longleftrightarrow> ?T \<and> ?V")
  proof
    assume l: ?L
    then have tr: "truthy (load_cached_token ev w)"
      using refresh_neq[of ev w "Inr t"] by (auto simp: get_access_token_False split: if_splits)
    with l have eq: "load_cached_token ev w = t" by (simp add: get_access_token_False)
    with tr have "t \<noteq> JNull" by auto
    with eq have ?V using load_cached_token_cases[of ev w t] by blast
    with tr eq show "?T \<and> ?V" by simp
  next
    assume r: "?T \<and> ?V"
    then have "t \<noteq> JNull" by auto
    with r have "load_cached_token ev w = t" using load_cached_token_cases[of ev w t] by blast
    with r show ?L by (simp add: get_access_token_False)
  qed
next
  assume a: "\<forall>t'. get_access_token ev False w \<noteq> (Inr t', w)"
  then have nt: "\<not> truthy (load_cached_token ev w)" by (auto simp: get_access_token_False)
  then show eq: "get_access_token ev False w = get_access_token ev True w"
    by (simp add: get_access_token_False)
  show "log (snd (get_access_token ev False w)) = log w @ [token_request ev]"
    by (simp add: eq refresh_log)
  show "\<forall>status body tok ei n w2.
         server w (log w @ [token_request ev]) = Reply status (JsonBody body) \<and>
         raise_for_status status = None \<and> getitem body ''access_token'' = Inr tok \<and>
         dict_get body ''expires_in'' (JInt 3600) = Inr ei \<and> py_int (int_of_str ev) ei = Inr n \<and>
         save_cached_token ev tok n (w\<lparr>log := log w @ [token_request ev]\<rparr>) = Inr w2 \<longrightarrow>
         get_access_token ev False w = (Inr tok, w2)"
    using refresh_success[of w ev] by (simp add: eq)
qed

theorem get_access_token_cache_rule_witness:
  "get_access_token ev0 False (world0 (cache_with (JStr ''cached'') 5000) [token_ok])
     = (Inr (JStr ''cached''), world0 (cache_with (JStr ''cached'') 5000) [token_ok]) \<and>
   get_access_token ev0 False (world0 (cache_with (JStr ''cached'') 1030) [token_ok])
     = (Inr (JStr ''fresh''),
        (world0 (cache_with (JStr ''cached'') 1030) [token_ok])
          \<lparr>log := [token_request ev0], cache_file := cache_with (JStr ''fresh'') 4600\<rparr>)"
proof -
  let ?w = "world0 (cache_with (JStr ''cached'') 5000) [token_ok]"
  let ?v = "world0 (cache_with (JStr ''cached'') 1030) [token_ok]"
  let ?v2 = "?v\<lparr>log := [token_request ev0], cache_file := cache_with (JStr ''fresh'') 4600\<rparr>"
  have valid: "truthy (JStr ''cached'') \<and> (\<exists>data ea d. cache_file ?w = Json data \<and>
      getitem data ''expires_at'' = Inr ea \<and> minus_time (round_float ev0) ea (clock ?w) = Inr d \<and>
      float_gt d SKEW \<and> getitem data ''access_token'' = Inr (JStr ''cached''))"
    by (simp add: world0_def cache_with_def SKEW_def)
  have first: "get_access_token ev0 False ?w = (Inr (JStr ''cached''), ?w)"
    using get_access_token_cache_rule[of ev0 ?w "JStr ''cached''"] valid by blast
  have stale: "\<forall>t'. get_access_token ev0 False ?v \<noteq> (Inr t', ?v)"
  proof (intro allI notI)
    fix t' assume "get_access_token ev0 False ?v = (Inr t', ?v)"
    then have "\<exists>data ea d. cache_file ?v = Json data \<and> getitem data ''expires_at'' = Inr ea \<and>
         minus_time (round_float ev0) ea (clock ?v) = Inr d \<and> float_gt d SKEW \<and>
         getitem data ''access_token'' = Inr t'"
      using get_access_token_cache_rule[of ev0 ?v t'] by blast
    then show False by (auto simp: world0_def cache_with_def SKEW_def)
  qed
  have srv: "server ?v (log ?v @ [token_request ev0])
      = Reply 200 (JsonBody (JObj [(''access_token'', JStr ''fresh''), (''expires_in'', JInt 3600)]))"
    by (simp add: world0_def scripted_def token_ok_def)
  have ok: "raise_for_status 200 = None"
     "getitem (JObj [(''access_token'', JStr ''fresh''), (''expires_in'', JInt 3600)]) ''access_token'' = Inr (JStr ''fresh'')"
     "dict_get (JObj [(''access_token'', JStr ''fresh''), (''expires_in'', JInt 3600)]) ''expires_in'' (JInt 3600) = Inr (JInt 3600)"
     "py_int (int_of_str ev0) (JInt 3600) = Inr 3600"
    by (simp_all add: raise_for_status_def)
  have sv: "save_cached_token ev0 (JStr ''fresh'') 3600 (?v\<lparr>log := log ?v @ [token_request ev0]\<rparr>) = Inr ?v2"
    by (simp add: save_cached_token_def float_of_int_def world0_def cache_with_def)
  have second: "get_access_token ev0 False ?v = (Inr (JStr ''fresh''), ?v2)"
    using get_access_token_cache_rule[of ev0 ?v] stale srv ok sv by blast
  show ?thesis using first second by simp
qed

text \<open>
  An \<open>expires_at\<close> too large for a float makes the subtraction raise, which the \<open>try\<close>
  swallows: the cache counts as stale. An \<open>expires_in\<close> too large for a float makes the
  refresh raise \<open>OverflowError\<close> after the token endpoint has answered.
\<close>

lemma huge_expires_at_refreshes:
  "load_cached_token ev0
     (world0 (Json (JObj [(''access_token'', JStr ''cached''), (''expires_at'', JInt (10 ^ 400))])) [token_ok])
     = JNull"
  by (simp add: load_cached_token_def world0_def float_of_int_def in_range_def)

lemma huge_expires_in_raises:
  "fst (get_access_token ev0 True
     (world0 NoFile [Reply 200 (JsonBody (JObj [(''access_token'', JStr ''fresh''),
                                                  (''expires_in'', JInt (10 ^ 400))]))]))
     = Inl OverflowError"
  by (simp add: get_access_token_def send_def world0_def scripted_def raise_for_status_def
      save_cached_token_def float_of_int_def in_range_def)

text \<open>
  Claim C1 as stated fails: a cached token that is the empty string is not returned
  although \<open>expires_at - now\<close> exceeds the skew (a refresh is made instead), and a
  refresh that the token endpoint answers with 400 returns no token.
\<close>

theorem get_access_token_cached_iff_counterexample:
  "float_gt (Fin (5000 - clock (world0 (cache_with (JStr '''') 5000) [token_ok]))) SKEW \<and>
   minus_time (round_float ev0) (JFloat (Fin 5000)) (clock (world0 (cache_with (JStr '''') 5000) [token_ok]))
     = Inr (Fin 4000) \<and>
   get_access_token ev0 False (world0 (cache_with (JStr '''') 5000) [token_ok])
     \<noteq> (Inr (JStr ''''), world0 (cache_with (JStr '''') 5000) [token_ok]) \<and>
   fst (get_access_token ev0 False (world0 (cache_with (JStr '''') 5000) [token_ok])) = Inr (JStr ''fresh'') \<and>
   log (snd (get_access_token ev0 False (world0 (cache_with (JStr '''') 5000) [token_ok]))) = [token_request ev0] \<and>
   \<not> float_gt (Fin (1010 - clock (world0 (cache_with (JStr ''old'') 1010) [Reply 400 (JsonBody JNull)]))) SKEW \<and>
   fst (get_access_token ev0 False (world0 (cache_with (JStr ''old'') 1010) [Reply 400 (JsonBody JNull)]))
     = Inl (HTTPError 400)"
  by (simp add: get_access_token_def load_cached_token_def send_def world0_def cache_with_def
      scripted_def token_ok_def raise_for_status_def SKEW_def save_cached_token_def float_of_int_def)

section \<open>What the token cache and the wrapper leave unchanged\<close>

lemma caller_headers_none [simp]:
  "map_of kw ''headers'' = None \<Longrightarrow> caller_headers kw = Inr []"
  by (simp add: caller_headers_def)


lemma accepted_simps [simp]:
  "accepted []" "accepted [(''json'', p)]" "accepted [(''params'', p)]"
  by (simp_all add: accepted_def session_keywords_def)

lemma delete_headers_idem [simp]:
  "AList.delete ''headers'' (AList.delete ''headers'' kw) = AList.delete ''headers'' kw"
  by (simp add: delete_idem)

lemma send_frame [simp]:
  "server (snd (send rq w)) = server w" "files (snd (send rq w)) = files w"
  "sleeps (snd (send rq w)) = sleeps w" "history_file (snd (send rq w)) = history_file w"
  "clock (snd (send rq w)) = clock w" "cache_file (snd (send rq w)) = cache_file w"
  by (simp_all add: send_def)

lemma get_access_token_frame:
  "server (snd (get_access_token ev f w)) = server w"
  "files (snd (get_access_token ev f w)) = files w"
  "sleeps (snd (get_access_token ev f w)) = sleeps w"
  "history_file (snd (get_access_token ev f w)) = history_file w"
  "clock (snd (get_access_token ev f w)) = clock w"
  by (auto simp: get_access_token_def send_def save_cached_token_def
      split: reply.splits option.splits sum.splits)

lemma get_access_token_frame':
  assumes "get_access_token ev f w = (r, w')"
  shows "server w' = server w" "files w' = files w" "sleeps w' = sleeps w"
    "history_file w' = history_file w" "clock w' = clock w"
  using get_access_token_frame[of ev f w] assms by simp_all

lemma send_frame':
  assumes "send rq w = (r, w')"
  shows "server w' = server w" "files w' = files w" "sleeps w' = sleeps w"
    "history_file w' = history_file w" "clock w' = clock w" "log w' = log w @ [rq]"
    "r = server w (log w @ [rq])"
  using assms by (auto simp: send_def)

lemma api_attempts_frame:
  "api_attempts ev m ep kw as resp w = (r, w') \<Longrightarrow>
   server w' = server w \<and> files w' = files w \<and> sleeps w' = sleeps w \<and>
   history_file w' = history_file w \<and> clock w' = clock w"
proof (induction as arbitrary: resp w kw)
  case Nil
  then show ?case by (auto split: option.splits)
next
  case (Cons a as)
  obtain r1 w1 where g1: "get_access_token ev False w = (r1, w1)" by force
  note f1 = get_access_token_frame'[OF g1]
  show ?case
  proof (cases r1)
    case (Inl e)
    with Cons.prems g1 f1 show ?thesis by auto
  next
    case (Inr tok)
    show ?thesis
    proof (cases "caller_headers kw")
      case hd: (Inl e)
      with Cons.prems g1 Inr f1 show ?thesis by auto
    next
      case hd: (Inr hs)
      obtain rp w2 where s: "send (api_call ev m ep kw tok) w1 = (rp, w2)" by force
      note f2 = send_frame'[OF s]
      show ?thesis
      proof (cases "accepted (AList.delete ''headers'' kw)")
        case False
        with Cons.prems g1 Inr hd f1 show ?thesis by auto
      next
        case acc: True
      show ?thesis
      proof (cases rp)
        case NoReply
        with Cons.prems g1 Inr hd acc s f1 f2 show ?thesis by auto
      next
        case (Reply status body)
        show ?thesis
        proof (cases "status = 401")
          case False
          with Cons.prems g1 Inr hd acc s Reply f1 f2 show ?thesis
            by (auto split: option.splits sum.splits)
        next
          case True
          obtain r3 w3 where g3: "get_access_token ev True w2 = (r3, w3)" by force
          note f3 = get_access_token_frame'[OF g3]
          show ?thesis
          proof (cases r3)
            case (Inl e)
            with Cons.prems g1 Inr hd acc s Reply True g3 f1 f2 f3 show ?thesis by auto
          next
            case (Inr t)
            with Cons.prems g1 \<open>r1 = Inr tok\<close> hd acc s Reply True g3
            have "api_attempts ev m ep (AList.delete ''headers'' kw) as (Some status) w3 = (r, w')"
              by simp
            from Cons.IH[OF this] f1 f2 f3 show ?thesis by simp
          qed
        qed
      qed
      qed
    qed
  qed
qed

lemma api_request_frame:
  assumes "api_request ev m ep kw w = (r, w')"
  shows "server w' = server w" "files w' = files w" "sleeps w' = sleeps w"
    "history_file w' = history_file w" "clock w' = clock w"
  using api_attempts_frame[of ev m ep kw "[0, 1]" None w r w'] assms by (simp_all add: api_request_def)

section \<open>Runs with a live cached token\<close>

lemma fresh_token:
  "get_access_token ev0 False (fresh_world rs) = (Inr (JStr ''cached''), fresh_world rs)"
  by (simp add: get_access_token_def load_cached_token_def fresh_world_def world0_def
      cache_with_def SKEW_def)

lemma fresh_world_sel [simp]:
  "log (fresh_world rs) = []" "server (fresh_world rs) = scripted rs"
  by (simp_all add: fresh_world_def world0_def)

section \<open>Properties of job creation and download\<close>

lemmas run_defs = api_request_def get_access_token_def load_cached_token_def send_def world0_def
  cache_with_def scripted_def token_ok_def raise_for_status_def SKEW_def save_cached_token_def
  caller_headers_def

text \<open>
  Claim C7 at a concrete run. A job named \<open>job1\<close> is created in module \<open>Tasks\<close> and the
  vendor returns the id \<open>555\<close>: the record appended to the history has the keys \<open>job1\<close>,
  \<open>id\<close> and \<open>module\<close>, and no key \<open>name\<close>.
\<close>

theorem create_bulk_read_job_record_keys:
  "history_file (snd (create_bulk_read_job ev0 ''Tasks'' ''job1''
      (world0 (cache_with (JStr ''cached'') 5000) [created_ok])))
     = Json (JArr [JObj [(''job1'', JStr ''job1''), (''id'', JStr ''555''), (''module'', JStr ''Tasks'')]]) \<and>
   getitem (JObj [(''job1'', JStr ''job1''), (''id'', JStr ''555''), (''module'', JStr ''Tasks'')]) ''name''
     = Inl KeyError \<and>
   fst (create_bulk_read_job ev0 ''Tasks'' ''job1''
      (world0 (cache_with (JStr ''cached'') 5000) [created_ok])) = Inr (JStr ''555'')"
  by (simp add: create_bulk_read_job_def created_id_def dict_display_def created_ok_def run_defs)

lemma dict_get_ok: "getitem d k = Inr v \<Longrightarrow> \<exists>v'. dict_get d k' dflt = Inr v'"
  by (cases d) (auto split: option.splits)

text \<open>
  Claim C8. \<open>download_all_pages\<close> writes no file when it raises. When it returns, it has
  made, after the status request of the wrapper and the token lookup, exactly one
  further request, for the \<open>download_url\<close> of the job result, and has written exactly one
  file, named after the \<open>page\<close> of that result, holding the body of that response. Nothing
  depends on \<open>more_records\<close> or \<open>next_page_token\<close>.
\<close>

theorem download_single_page:
  assumes "download_all_pages ev job_id out_prefix w = (r, w')"
  shows "(r \<noteq> Inr () \<longrightarrow> files w' = files w) \<and>
         (r = Inr () \<longrightarrow>
            (\<exists>res w1 d job result page token w2 u status body.
               api_request ev ''GET'' (job_endpoint job_id) [] w = (Inr res, w1) \<and>
               getitem res ''data'' = Inr d \<and> getitem0 d = Inr job \<and>
               getitem job ''result'' = Inr result \<and> getitem result ''page'' = Inr page \<and>
               get_access_token ev False w1 = (Inr token, w2) \<and>
               getitem result ''download_url'' = Inr u \<and>
               server w (log w2 @ [download_request ev token u]) = Reply status body \<and>
               log w' = log w2 @ [download_request ev token u] \<and>
               files w' = files w @ [(zip_name out_prefix page, body)]))"
proof -
  obtain r1 w1 where a: "api_request ev ''GET'' (job_endpoint job_id) [] w = (r1, w1)" by force
  note fa = api_request_frame[OF a]
  show ?thesis
  proof (cases r1)
    case (Inl e)
    with assms a fa show ?thesis by (auto simp: download_all_pages_def)
  next
    case (Inr res)
    obtain r2 w2 where g: "get_access_token ev False w1 = (r2, w2)" by force
    note fg = get_access_token_frame'[OF g]
    show ?thesis
    proof (cases "\<exists>d job result page. getitem res ''data'' = Inr d \<and> getitem0 d = Inr job \<and>
               getitem job ''result'' = Inr result \<and> getitem result ''page'' = Inr page")
      case False
      with assms a Inr fa show ?thesis
        by (auto simp: download_all_pages_def split: sum.splits)
    next
      case True
      then obtain d job result page where j: "getitem res ''data'' = Inr d" "getitem0 d = Inr job"
        "getitem job ''result'' = Inr result" "getitem result ''page'' = Inr page" by blast
      obtain nt mr where dg: "dict_get result ''next_page_token'' JNull = Inr nt"
        "dict_get result ''more_records'' (JBool False) = Inr mr"
        using dict_get_ok[OF j(4)] by blast
      show ?thesis
      proof (cases r2)
        case (Inl e)
        with assms a \<open>r1 = Inr res\<close> j dg g fa fg show ?thesis
          by (auto simp: download_all_pages_def)
      next
        case tk: (Inr token)
        show ?thesis
        proof (cases "getitem result ''download_url''")
          case (Inl e)
          with assms a \<open>r1 = Inr res\<close> j dg g tk fa fg show ?thesis
            by (auto simp: download_all_pages_def)
        next
          case u: (Inr u)
          obtain rp w3 where s: "send (download_request ev token u) w2 = (rp, w3)" by force
          note fs = send_frame'[OF s]
          show ?thesis
          proof (cases rp)
            case NoReply
            with assms a \<open>r1 = Inr res\<close> j dg g tk u s fa fg fs show ?thesis
              by (auto simp: download_all_pages_def)
          next
            case (Reply status body)
            with assms a \<open>r1 = Inr res\<close> j dg g tk u s
            have "r = Inr ()" "w' = w3\<lparr>files := files w3 @ [(zip_name out_prefix page, body)]\<rparr>"
              by (auto simp: download_all_pages_def)
            moreover have "server w (log w2 @ [download_request ev token u]) = Reply status body"
              using fs(7) Reply fg(1) fa(1) by simp
            ultimately show ?thesis using a \<open>r1 = Inr res\<close> j g tk u fa fg fs by simp
          qed
        qed
      qed
    qed
  qed
qed

theorem download_single_page_witness:
  "fst (download_all_pages ev0 ''555'' ''out''
          (fresh_world [job_reply ''COMPLETED'', Reply 200 (RawBody ''PK'')])) = Inr () \<and>
   files (snd (download_all_pages ev0 ''555'' ''out''
          (fresh_world [job_reply ''COMPLETED'', Reply 200 (RawBody ''PK'')])))
     = [(zip_name ''out'' (JInt 1), RawBody ''PK'')] \<and>
   length (log (snd (download_all_pages ev0 ''555'' ''out''
          (fresh_world [job_reply ''COMPLETED'', Reply 200 (RawBody ''PK'')])))) = 2 \<and>
   getitem job_result ''more_records'' = Inr (JBool True) \<and>
   getitem job_result ''next_page_token'' = Inr (JStr ''next'')"
proof -
  let ?w = "fresh_world [job_reply ''COMPLETED'', Reply 200 (RawBody ''PK'')]"
  have api: "api_request ev0 ''GET'' (job_endpoint ''555'') [] ?w
      = (Inr (JObj [(''data'', JArr [JObj [(''state'', JStr ''COMPLETED''), (''result'', job_result)]])]),
         ?w\<lparr>log := [api_call ev0 ''GET'' (job_endpoint ''555'') [] (JStr ''cached'')]\<rparr>)"
    by (simp add: api_request_def fresh_token send_def scripted_def job_reply_def raise_for_status_def)
  have tok: "get_access_token ev0 False (?w\<lparr>log := [api_call ev0 ''GET'' (job_endpoint ''555'') [] (JStr ''cached'')]\<rparr>)
      = (Inr (JStr ''cached''), ?w\<lparr>log := [api_call ev0 ''GET'' (job_endpoint ''555'') [] (JStr ''cached'')]\<rparr>)"
    by (simp add: get_access_token_def load_cached_token_def fresh_world_def world0_def
      cache_with_def SKEW_def)
  have run: "fst (download_all_pages ev0 ''555'' ''out'' ?w) = Inr ()"
    by (simp add: download_all_pages_def api tok job_result_def send_def scripted_def)
  then have e: "download_all_pages ev0 ''555'' ''out'' ?w
      = (Inr (), snd (download_all_pages ev0 ''555'' ''out'' ?w))"
    by (metis prod.collapse)
  have fl: "files ?w = []" by (simp add: fresh_world_def world0_def)
  from download_single_page[OF e] api tok fl
  have "files (snd (download_all_pages ev0 ''555'' ''out'' ?w)) = [(zip_name ''out'' (JInt 1), RawBody ''PK'')] \<and>
        length (log (snd (download_all_pages ev0 ''555'' ''out'' ?w))) = 2"
    by (auto simp: job_result_def scripted_def)
  then show ?thesis using run by (simp add: job_result_def)
qed

section \<open>Properties of the batch delete\<close>

lemma chunked_map: "chunked (map f xs) n = map (map f) (chunked xs n)"
  by (induction xs n rule: chunked.induct) (auto simp: take_map drop_map)

lemma py_join_Some [simp]: "py_join sep (map Some b) = Inr (join_strs sep b)"
proof -
  have "those (map Some b) = Some b" by (induction b) auto
  then show ?thesis by (simp add: py_join_def)
qed

lemma those_Some: "those xs = Some ys \<Longrightarrow> xs = map Some ys"
  by (induction xs arbitrary: ys) (auto split: option.splits)

lemma py_join_Inr: "py_join sep batch = Inr s \<Longrightarrow> \<exists>b. batch = map Some b \<and> s = join_strs sep b"
  by (auto simp: py_join_def split: option.splits dest: those_Some)

lemma delete_batches_frame:
  "delete_batches ev mn tok bs t w = (r, w') \<Longrightarrow>
   server w' = server w \<and> files w' = files w \<and> cache_file w' = cache_file w"
proof (induction bs arbitrary: t w)
  case Nil
  then show ?case by simp
next
  case (Cons b bs)
  show ?case
  proof (cases "py_join '','' b")
    case (Inl e)
    with Cons.prems show ?thesis by simp
  next
    case (Inr s)
    obtain rp w1 where sd: "send (delete_request ev mn tok s) w = (rp, w1)" by force
    note fs = send_frame'[OF sd]
    have c: "cache_file w1 = cache_file w" using sd by (auto simp: send_def)
    show ?thesis
    proof (cases rp)
      case NoReply
      with Cons.prems Inr sd fs c show ?thesis by auto
    next
      case (Reply status body)
      show ?thesis
      proof (cases "raise_for_status status")
        case None
        with Cons.prems Inr sd Reply
        have "delete_batches ev mn tok bs (t + length b) w1 = (r, w')" by simp
        from Cons.IH[OF this] fs c show ?thesis by simp
      next
        case (Some e)
        with Cons.prems Inr sd Reply fs c show ?thesis by auto
      qed
    qed
  qed
qed

text \<open>A run of the loop that ends without an exception has sent one request per batch.\<close>

lemma delete_batches_completed:
  "delete_batches ev mn tok bs t w = ((None, n), w') \<Longrightarrow>
   \<exists>xss. bs = map (map Some) xss \<and> log w' = log w @ map (del_req ev mn tok) xss \<and>
         n = t + sum_list (map length xss)"
proof (induction bs arbitrary: t w)
  case Nil
  then show ?case by simp
next
  case (Cons b bs)
  show ?case
  proof (cases "py_join '','' b")
    case (Inl e)
    with Cons.prems show ?thesis by simp
  next
    case (Inr s)
    then obtain xs where b: "b = map Some xs" "s = join_strs '','' xs"
      using py_join_Inr by blast
    obtain rp w1 where sd: "send (delete_request ev mn tok s) w = (rp, w1)" by force
    note fs = send_frame'[OF sd]
    show ?thesis
    proof (cases rp)
      case NoReply
      with Cons.prems Inr sd show ?thesis by simp
    next
      case (Reply status body)
      show ?thesis
      proof (cases "raise_for_status status")
        case None
        with Cons.prems Inr sd Reply
        have "delete_batches ev mn tok bs (t + length b) w1 = ((None, n), w')" by simp
        from Cons.IH[OF this] obtain xss where x: "bs = map (map Some) xss"
          "log w' = log w1 @ map (del_req ev mn tok) xss" "n = t + length b + sum_list (map length xss)"
          by blast
        have "b # bs = map (map Some) (xs # xss)" using b x by simp
        moreover have "log w' = log w @ map (del_req ev mn tok) (xs # xss)"
          using x fs b by (simp add: del_req_def)
        moreover have "n = t + sum_list (map length (xs # xss))" using x b by simp
        ultimately show ?thesis by (intro exI[of _ "xs # xss"] conjI)
      next
        case (Some e)
        with Cons.prems Inr sd Reply show ?thesis by simp
      qed
    qed
  qed
qed

text \<open>A run that meets its first 4xx/5xx answer at batch \<open>k\<close> stops there.\<close>

lemma delete_batches_halts:
  assumes "k < length xss"
    and "\<forall>i<k. \<exists>s b. server w (log w @ map (del_req ev mn tok) (take (Suc i) xss)) = Reply s b \<and>
                     \<not> (400 \<le> s \<and> s < 600)"
    and "server w (log w @ map (del_req ev mn tok) (take (Suc k) xss)) = Reply status body"
    and "400 \<le> status" "status < 600"
  shows "delete_batches ev mn tok (map (map Some) xss) t w =
           ((Some (HTTPError status), t + sum_list (map length (take k xss))),
            w\<lparr>log := log w @ map (del_req ev mn tok) (take (Suc k) xss)\<rparr>)"
  using assms
proof (induction xss arbitrary: k t w)
  case Nil
  then show ?case by simp
next
  case (Cons xs xss)
  show ?case
  proof (cases k)
    case 0
    with Cons.prems show ?thesis
      by (simp add: send_def del_req_def raise_for_status_def)
  next
    case (Suc j)
    from Cons.prems(2) Suc obtain s0 b0 where
      r0: "server w (log w @ [del_req ev mn tok xs]) = Reply s0 b0" "\<not> (400 \<le> s0 \<and> s0 < 600)"
      by (auto dest: spec[of _ 0])
    let ?w1 = "w\<lparr>log := log w @ [del_req ev mn tok xs]\<rparr>"
    have step: "delete_batches ev mn tok (map (map Some) (xs # xss)) t w
                = delete_batches ev mn tok (map (map Some) xss) (t + length xs) ?w1"
      using r0 by (auto simp: send_def del_req_def raise_for_status_def)
    have a1: "j < length xss" using Cons.prems(1) Suc by simp
    have a2: "\<forall>i<j. \<exists>s b. server ?w1 (log ?w1 @ map (del_req ev mn tok) (take (Suc i) xss)) = Reply s b \<and>
                     \<not> (400 \<le> s \<and> s < 600)"
    proof (intro allI impI)
      fix i assume "i < j"
      then have "Suc i < k" using Suc by simp
      with Cons.prems(2) show "\<exists>s b. server ?w1 (log ?w1 @ map (del_req ev mn tok) (take (Suc i) xss)) = Reply s b \<and>
                     \<not> (400 \<le> s \<and> s < 600)"
        by (auto dest!: spec[of _ "Suc i"])
    qed
    have a3: "server ?w1 (log ?w1 @ map (del_req ev mn tok) (take (Suc j) xss)) = Reply status body"
      using Cons.prems(3) Suc by simp
    from Cons.IH[OF a1 a2 a3 Cons.prems(4,5), of "t + length xs"] step Suc
    show ?thesis by simp
  qed
qed

lemma map_of_fill:
  "map_of (foldl (\<lambda>d k. AList.update k None d) d0 ks) k =
     (if k \<in> set ks then Some None else map_of d0 k)"
  by (induction ks arbitrary: d0) (auto simp: update_conv')

lemma map_of_zipped:
  "map_of (foldl (\<lambda>d (k, v). AList.update k (Some v) d) d0 kvs) k =
     (case map_of (rev kvs) k of Some v \<Rightarrow> Some (Some v) | None \<Rightarrow> map_of d0 k)"
  by (induction kvs arbitrary: d0) (auto simp: update_conv' map_add_def split: option.splits)

lemma map_of_rev_zip_last:
  assumes "j < length fs" "j < length row" "fs ! j = k"
    and "\<forall>i. j < i \<and> i < length fs \<longrightarrow> fs ! i \<noteq> k"
  shows "map_of (rev (zip fs row)) k = Some (row ! j)"
proof -
  have fs: "fs = take j fs @ fs ! j # drop (Suc j) fs" using assms(1) by (simp add: id_take_nth_drop)
  have row: "row = take j row @ row ! j # drop (Suc j) row" using assms(2) by (simp add: id_take_nth_drop)
  have len: "length (take j fs) = length (take j row)" using assms(1,2) by simp
  have "zip fs row = zip (take j fs @ fs ! j # drop (Suc j) fs) (take j row @ row ! j # drop (Suc j) row)"
    using fs row by simp
  also have "\<dots> = zip (take j fs) (take j row) @ (fs ! j, row ! j) # zip (drop (Suc j) fs) (drop (Suc j) row)"
    using len by (simp only: zip_append zip_Cons_Cons)
  finally have z: "rev (zip fs row) =
      rev (zip (drop (Suc j) fs) (drop (Suc j) row)) @ (k, row ! j) # rev (zip (take j fs) (take j row))"
    using assms(3) by simp
  have "k \<notin> set (drop (Suc j) fs)"
  proof
    assume "k \<in> set (drop (Suc j) fs)"
    then obtain i where "i < length (drop (Suc j) fs)" "drop (Suc j) fs ! i = k"
      by (auto simp: in_set_conv_nth)
    then have "Suc j + i < length fs" "fs ! (Suc j + i) = k" by auto
    with assms(4) show False by auto
  qed
  then have "k \<notin> fst ` set (rev (zip (drop (Suc j) fs) (drop (Suc j) row)))"
    by (auto dest: set_zip_leftD)
  then have "map_of (rev (zip (drop (Suc j) fs) (drop (Suc j) row))) k = None"
    by (simp add: map_of_eq_None_iff)
  then show ?thesis by (simp add: z map_add_def)
qed

text \<open>The column that \<open>row["Id"]\<close> reads is the last one named \<open>Id\<close>.\<close>

lemma row_dict_Id:
  assumes "j < length fs" "fs ! j = k" "\<forall>i. j < i \<and> i < length fs \<longrightarrow> fs ! i \<noteq> k"
  shows "map_of (row_dict fs row) k = Some (if j < length row then Some (row ! j) else None)"
proof (cases "j < length row")
  case True
  have "k \<notin> set (drop (length row) fs)"
  proof
    assume "k \<in> set (drop (length row) fs)"
    then obtain i where "i < length (drop (length row) fs)" "drop (length row) fs ! i = k"
      by (auto simp: in_set_conv_nth)
    then have "length row + i < length fs" "fs ! (length row + i) = k" by auto
    with assms(3) True show False by auto
  qed
  then show ?thesis
    using True map_of_rev_zip_last[OF assms(1) True assms(2,3)]
    by (simp add: row_dict_def map_of_fill map_of_zipped)
next
  case False
  then have "k \<in> set (drop (length row) fs)"
    using assms(1,2) by (auto simp: in_set_conv_nth intro!: exI[of _ "j - length row"])
  then show ?thesis using False by (simp add: row_dict_def map_of_fill)
qed

lemma read_id_rows_column:
  assumes "j < length fs" "fs ! j = ''Id''" "\<forall>i. j < i \<and> i < length fs \<longrightarrow> fs ! i \<noteq> ''Id''"
  shows "read_id_rows fs rows = Inr (map (\<lambda>row. if j < length row then Some (row ! j) else None) rows)"
  by (induction rows) (simp_all add: row_dict_Id[OF assms])

lemma last_index_exists:
  "k \<in> set fs \<Longrightarrow> \<exists>j. j < length fs \<and> fs ! j = k \<and> (\<forall>i. j < i \<and> i < length fs \<longrightarrow> fs ! i \<noteq> k)"
proof (induction fs rule: rev_induct)
  case Nil
  then show ?case by simp
next
  case (snoc x xs)
  show ?case
  proof (cases "x = k")
    case True
    then show ?thesis by (intro exI[of _ "length xs"]) auto
  next
    case False
    with snoc obtain j where j: "j < length xs" "xs ! j = k" "\<forall>i. j < i \<and> i < length xs \<longrightarrow> xs ! i \<noteq> k"
      by auto
    show ?thesis
    proof (intro exI[of _ j] conjI allI impI)
      show "j < length (xs @ [x])" using j by simp
      show "(xs @ [x]) ! j = k" using j by (simp add: nth_append)
      fix i assume "j < i \<and> i < length (xs @ [x])"
      then show "(xs @ [x]) ! i \<noteq> k" using j False by (cases "i < length xs") (auto simp: nth_append)
    qed
  qed
qed

lemma read_id_rows_ok: "''Id'' \<in> set fs \<Longrightarrow> \<exists>ids. read_id_rows fs rows = Inr ids"
  using last_index_exists[of "''Id''" fs] read_id_rows_column by blast

lemma getitem_not_RuntimeError: "getitem d k \<noteq> Inl RuntimeError"
  by (cases d) (auto split: option.splits)

lemma dict_get_not_RuntimeError: "dict_get d k v \<noteq> Inl RuntimeError"
  by (cases d) (auto split: option.splits)

lemma py_int_not_RuntimeError: "py_int p v \<noteq> Inl RuntimeError"
  by (induction p v rule: py_int.induct) (auto split: option.splits)

lemma save_not_RuntimeError: "save_cached_token ev tok n w \<noteq> Inl RuntimeError"
  by (auto simp: save_cached_token_def float_of_int_def split: pyfloat.splits)

lemma resp_json_not_RuntimeError: "resp_json b \<noteq> Inl RuntimeError"
  by (cases b) auto

lemma raise_for_status_not_RuntimeError: "raise_for_status s \<noteq> Some RuntimeError"
  by (simp add: raise_for_status_def)

lemma get_access_token_not_RuntimeError: "get_access_token ev f w \<noteq> (Inl RuntimeError, w')"
proof
  assume a: "get_access_token ev f w = (Inl RuntimeError, w')"
  show False
  proof (cases "\<not> f \<and> truthy (load_cached_token ev w)")
    case True
    with a show False by (simp add: get_access_token_def)
  next
    case False
    obtain rp w1 where s: "send (token_request ev) w = (rp, w1)" by force
    show False
    proof (cases rp)
      case NoReply
      with a False s show False by (simp add: get_access_token_def)
    next
      case (Reply status body)
      with a False s show False
        using getitem_not_RuntimeError dict_get_not_RuntimeError py_int_not_RuntimeError
          resp_json_not_RuntimeError raise_for_status_not_RuntimeError[of status]
          save_not_RuntimeError
        by (simp add: get_access_token_def split: option.splits sum.splits)
    qed
  qed
qed

lemma py_join_not_RuntimeError: "py_join sep b \<noteq> Inl RuntimeError"
  by (simp add: py_join_def split: option.splits)

lemma delete_batches_not_RuntimeError:
  "delete_batches ev mn tok bs t w \<noteq> ((Some RuntimeError, n), w')"
proof (induction bs arbitrary: t w)
  case Nil
  then show ?case by simp
next
  case (Cons b bs)
  show ?case
  proof (cases "py_join '','' b")
    case (Inl e)
    then show ?thesis using py_join_not_RuntimeError[of "'',''" b] by auto
  next
    case (Inr s)
    obtain rp w1 where sd: "send (delete_request ev mn tok s) w = (rp, w1)" by force
    show ?thesis
    proof (cases rp)
      case NoReply
      with Inr sd show ?thesis by simp
    next
      case (Reply status body)
      show ?thesis
      proof (cases "raise_for_status status")
        case None
        with Inr sd Reply Cons.IH show ?thesis by simp
      next
        case (Some e)
        with Inr sd Reply raise_for_status_not_RuntimeError[of status] show ?thesis by auto
      qed
    qed
  qed
qed

lemma read_ids_header:
  "read_ids (Rows (fs # rest)) =
     (if ''Id'' \<notin> set fs then Inl RuntimeError else read_id_rows fs (data_rows (fs # rest)))"
  by (simp add: read_ids_def fieldnames_def)

lemma map_Some_chunks:
  assumes "chunked (map Some xs) 100 = map (map Some) xss"
  shows "xss = chunked xs 100"
proof -
  have "map (map Some) xss = map (map Some) (chunked xs 100)"
    using assms by (simp add: chunked_map)
  moreover have "inj (map (map (Some :: 'a \<Rightarrow> 'a option)))" by (intro inj_mapI) simp
  ultimately show ?thesis by (simp add: inj_eq)
qed

lemma id_column_rule_aux:
  "(''Id'' \<notin> set fs \<longrightarrow>
      delete_batch_from_file ev mn (Rows (fs # rest)) w = ((Some RuntimeError, 0), w)) \<and>
   (''Id'' \<in> set fs \<longrightarrow>
      (\<forall>n w'. delete_batch_from_file ev mn (Rows (fs # rest)) w \<noteq> ((Some RuntimeError, n), w'))) \<and>
   (\<forall>j n w'. j < length fs \<and> fs ! j = ''Id'' \<and> (\<forall>i. j < i \<and> i < length fs \<longrightarrow> fs ! i \<noteq> ''Id'') \<and>
       delete_batch_from_file ev mn (Rows (fs # rest)) w = ((None, n), w') \<longrightarrow>
       (\<exists>token w1. get_access_token ev False w = (Inr token, w1) \<and>
          (\<forall>row \<in> set (data_rows (fs # rest)). j < length row) \<and>
          n = length (data_rows (fs # rest)) \<and>
          log w' = log w1 @ map (del_req ev mn token)
                     (chunked (map (\<lambda>row. row ! j) (data_rows (fs # rest))) 100)))"
proof (intro conjI impI allI)
  assume "''Id'' \<notin> set fs"
  then show "delete_batch_from_file ev mn (Rows (fs # rest)) w = ((Some RuntimeError, 0), w)"
    by (simp add: delete_batch_from_file_def read_ids_header)
next
  fix n w'
  assume "''Id'' \<in> set fs"
  then obtain ids where "read_ids (Rows (fs # rest)) = Inr ids"
    using read_id_rows_ok[of fs "data_rows (fs # rest)"] by (auto simp: read_ids_header)
  then have rd: "read_ids (Rows (fs # rest)) = Inr ids" .
  obtain r1 w1 where g: "get_access_token ev False w = (r1, w1)" by force
  show "delete_batch_from_file ev mn (Rows (fs # rest)) w \<noteq> ((Some RuntimeError, n), w')"
  proof (cases r1)
    case (Inl e)
    then have "e \<noteq> RuntimeError" using g get_access_token_not_RuntimeError[of ev False w w1] by auto
    then show ?thesis using rd g Inl by (simp add: delete_batch_from_file_def)
  next
    case (Inr token)
    then show ?thesis
      using rd g delete_batches_not_RuntimeError[of ev mn token "chunked ids 100" 0 w1 n w']
      by (simp add: delete_batch_from_file_def)
  qed
next
  fix j n w'
  assume a: "j < length fs \<and> fs ! j = ''Id'' \<and> (\<forall>i. j < i \<and> i < length fs \<longrightarrow> fs ! i \<noteq> ''Id'') \<and>
       delete_batch_from_file ev mn (Rows (fs # rest)) w = ((None, n), w')"
  let ?rows = "data_rows (fs # rest)"
  let ?ids = "map (\<lambda>row. if j < length row then Some (row ! j) else None) ?rows"
  have "''Id'' \<in> set fs" using a by (auto simp: in_set_conv_nth)
  then have rd: "read_ids (Rows (fs # rest)) = Inr ?ids"
    using a read_id_rows_column[of j fs ?rows] by (simp add: read_ids_header)
  obtain r1 w1 where g: "get_access_token ev False w = (r1, w1)" by force
  from a rd g obtain token where tk: "r1 = Inr token"
    and run: "delete_batches ev mn token (chunked ?ids 100) 0 w1 = ((None, n), w')"
    by (cases r1) (auto simp: delete_batch_from_file_def)
  from delete_batches_completed[OF run] obtain xss where x:
    "chunked ?ids 100 = map (map Some) xss" "log w' = log w1 @ map (del_req ev mn token) xss"
    "n = sum_list (map length xss)" by auto
  have "?ids = concat (chunked ?ids 100)" by (simp add: concat_chunked)
  then have ids: "?ids = map Some (concat xss)" using x(1) by (simp add: map_concat)
  have all: "\<forall>row \<in> set ?rows. j < length row"
  proof
    fix row assume "row \<in> set ?rows"
    then have "(if j < length row then Some (row ! j) else None) \<in> set ?ids" by auto
    then have "(if j < length row then Some (row ! j) else None) \<in> set (map Some (concat xss))"
      using ids by simp
    then show "j < length row" by (auto split: if_splits)
  qed
  then have "?ids = map Some (map (\<lambda>row. row ! j) ?rows)" by simp
  then have "map Some (concat xss) = map Some (map (\<lambda>row. row ! j) ?rows)"
    using ids by simp
  then have xs: "concat xss = map (\<lambda>row. row ! j) ?rows"
    by (simp only: inj_map_eq_map[OF inj_Some])
  have "chunked (map Some (concat xss)) 100 = map (map Some) xss" using x(1) ids by simp
  then have "xss = chunked (concat xss) 100" by (rule map_Some_chunks)
  then have ch: "xss = chunked (map (\<lambda>row. row ! j) ?rows) 100" using xs by simp
  have "n = length (concat xss)" using x(3) by (simp add: length_concat)
  then have "n = length ?rows" using xs by simp
  then have "get_access_token ev False w = (Inr token, w1) \<and>
          (\<forall>row \<in> set ?rows. j < length row) \<and> n = length ?rows \<and>
          log w' = log w1 @ map (del_req ev mn token) (chunked (map (\<lambda>row. row ! j) ?rows) 100)"
    using g tk all x(2) ch by simp
  then show "\<exists>token w1. get_access_token ev False w = (Inr token, w1) \<and>
          (\<forall>row \<in> set ?rows. j < length row) \<and> n = length ?rows \<and>
          log w' = log w1 @ map (del_req ev mn token) (chunked (map (\<lambda>row. row ! j) ?rows) 100)"
    by blast
qed

lemma del_req_explicit:
  "del_req ev mn token =
     (\<lambda>b. \<lparr>http_method = ''DELETE'',
            url = [Lit (API_DOMAIN ev @ ''/crm/v8/'' @ mn @ ''?ids='' @ join_strs '','' b @ ''&wf_trigger=true'')],
            authorization = Some [Lit ''Zoho-oauthtoken '', Fmt token], headers = [], kwargs = []\<rparr>)"
  by (rule ext) (simp add: del_req_def delete_request_def auth_header_def)

text \<open>
  A CSV file with a header row \<open>fs\<close>. When no field is exactly \<open>Id\<close> the function raises
  \<open>RuntimeError\<close> and leaves the world as it was (no request sent); when some field is
  \<open>Id\<close> it never raises \<open>RuntimeError\<close>; and when it ends without an exception, every data
  row has a value in the (last) column named \<open>Id\<close>, the count is the number of data rows,
  and the requests sent after the token lookup are exactly the \<open>DELETE\<close> requests whose
  URLs carry, joined by commas, the batches of 100 of those values, in order.
\<close>

lemma id_column_header_rule:
  "(''Id'' \<notin> set fs \<longrightarrow>
      delete_batch_from_file ev mn (Rows (fs # rest)) w = ((Some RuntimeError, 0), w)) \<and>
   (''Id'' \<in> set fs \<longrightarrow>
      (\<forall>n w'. delete_batch_from_file ev mn (Rows (fs # rest)) w \<noteq> ((Some RuntimeError, n), w'))) \<and>
   (\<forall>j n w'. j < length fs \<and> fs ! j = ''Id'' \<and> (\<forall>i. j < i \<and> i < length fs \<longrightarrow> fs ! i \<noteq> ''Id'') \<and>
       delete_batch_from_file ev mn (Rows (fs # rest)) w = ((None, n), w') \<longrightarrow>
       (\<exists>token w1. get_access_token ev False w = (Inr token, w1) \<and>
          (\<forall>row \<in> set (data_rows (fs # rest)). j < length row) \<and>
          n = length (filter (\<lambda>r. r \<noteq> []) rest) \<and>
          log w' = log w1 @
            map (\<lambda>b. \<lparr>http_method = ''DELETE'',
                       url = [Lit (API_DOMAIN ev @ ''/crm/v8/'' @ mn @ ''?ids='' @ join_strs '','' b
                                   @ ''&wf_trigger=true'')],
                       authorization = Some [Lit ''Zoho-oauthtoken '', Fmt token],
                       headers = [], kwargs = []\<rparr>)
              (chunked (map (\<lambda>row. row ! j) (filter (\<lambda>r. r \<noteq> []) rest)) 100)))"
  using id_column_rule_aux[of fs ev mn rest w]
  by (simp add: del_req_explicit data_rows_def)

text \<open>
  Claim C10 at the input where the code departs from it. An empty CSV file has no header
  row: \<^verbatim>\<open>reader.fieldnames\<close> is \<^verbatim>\<open>None\<close>, the membership test raises \<^verbatim>\<open>TypeError\<close>, and the
  \<open>RuntimeError\<close> written for a file without the column is never reached. No request is
  sent.
\<close>

theorem empty_file_raises_TypeError:
  "fieldnames [] = None \<and>
   delete_batch_from_file ev mn (Rows []) w = ((Some TypeError, 0), w) \<and>
   delete_batch_from_file ev mn (Rows []) w \<noteq> ((Some RuntimeError, 0), w)"
  by (simp add: delete_batch_from_file_def read_ids_def fieldnames_def)

lemma full_chunks_total:
  assumes "k < length (chunked xs 100)"
  shows "sum_list (map length (take k (chunked xs 100))) = 100 * k"
proof -
  have "map length (take k (chunked xs 100)) = replicate k 100"
  proof (rule nth_equalityI)
    show "length (map length (take k (chunked xs 100))) = length (replicate k (100::nat))"
      using assms by simp
  next
    fix i assume "i < length (map length (take k (chunked xs 100)))"
    then have i: "i < k" by simp
    then have "Suc i < length (chunked xs 100)" "i < length (chunked xs 100)" using assms by simp_all
    then have "length (chunked xs 100 ! i) = 100" using chunked_sizes(3)[of 100 i xs] by simp
    then show "map length (take k (chunked xs 100)) ! i = replicate k 100 ! i"
      using i assms by simp
  qed
  then show ?thesis by (simp add: sum_list_replicate)
qed

text \<open>
  Claim C4, amended. When the batches before batch \<open>k\<close> are answered outside 4xx/5xx and
  batch \<open>k\<close> is answered with a 4xx or 5xx status, \<open>delete_batch_from_file\<close> raises
  \<open>HTTPError\<close> for that status, the requests sent are those of batches \<open>0..k\<close> and no
  other, and \<open>total_deleted\<close> is the total size of the batches before \<open>k\<close>, that is \<open>100 * k\<close>.
\<close>

theorem delete_stops_at_failed_chunk:
  assumes "read_ids f = Inr (map Some xs)"
    and "get_access_token ev False w = (Inr token, w1)"
    and "k < length (chunked xs 100)"
    and "\<forall>i<k. \<exists>s b. server w (log w1 @ map (del_req ev mn token) (take (Suc i) (chunked xs 100)))
                        = Reply s b \<and> \<not> (400 \<le> s \<and> s < 600)"
    and "server w (log w1 @ map (del_req ev mn token) (take (Suc k) (chunked xs 100))) = Reply status body"
    and "400 \<le> status" "status < 600"
  shows "delete_batch_from_file ev mn f w =
           ((Some (HTTPError status), sum_list (map length (take k (chunked xs 100)))),
            w1\<lparr>log := log w1 @ map (del_req ev mn token) (take (Suc k) (chunked xs 100))\<rparr>) \<and>
         sum_list (map length (take k (chunked xs 100))) = 100 * k"
proof -
  have sv: "server w1 = server w" using get_access_token_frame'(1)[OF assms(2)] .
  have "delete_batches ev mn token (map (map Some) (chunked xs 100)) 0 w1 =
           ((Some (HTTPError status), 0 + sum_list (map length (take k (chunked xs 100)))),
            w1\<lparr>log := log w1 @ map (del_req ev mn token) (take (Suc k) (chunked xs 100))\<rparr>)"
    using assms(3-7) by (intro delete_batches_halts) (simp_all add: sv)
  then have "delete_batch_from_file ev mn f w =
           ((Some (HTTPError status), sum_list (map length (take k (chunked xs 100)))),
            w1\<lparr>log := log w1 @ map (del_req ev mn token) (take (Suc k) (chunked xs 100))\<rparr>)"
    using assms(1,2) by (simp add: delete_batch_from_file_def chunked_map)
  then show ?thesis using full_chunks_total[OF assms(3)] by simp
qed

lemma chunked_many: "chunked many_ids 100 = [replicate 100 ''7'', [''7'']]"
  unfolding many_ids_def by code_simp

lemma read_many: "read_ids (Rows ([''Id''] # map (\<lambda>x. [x]) many_ids)) = Inr (map Some many_ids)"
proof -
  have "data_rows ([''Id''] # map (\<lambda>x. [x]) many_ids) = map (\<lambda>x. [x]) many_ids"
    by (simp add: data_rows_def filter_map comp_def)
  moreover have "read_id_rows [''Id''] (map (\<lambda>x. [x]) many_ids)
      = Inr (map (\<lambda>row. if 0 < length row then Some (row ! 0) else None) (map (\<lambda>x. [x]) many_ids))"
    by (rule read_id_rows_column) auto
  ultimately show ?thesis by (simp add: read_ids_header comp_def)
qed

lemma py_join_replicate: "py_join sep (replicate n (Some x)) = Inr (join_strs sep (replicate n x))"
  using py_join_Some[of sep "replicate n x"] by simp

lemma py_join_single: "py_join sep [Some x] = Inr x"
  by (simp add: py_join_def)

theorem delete_stops_at_failed_chunk_witness:
  "fst (delete_batch_from_file ev0 ''Tasks'' (Rows ([''Id''] # map (\<lambda>x. [x]) many_ids))
          (fresh_world [Reply 200 (JsonBody JNull), Reply 500 (JsonBody JNull), Reply 200 (JsonBody JNull)]))
     = (Some (HTTPError 500), 100) \<and>
   length (log (snd (delete_batch_from_file ev0 ''Tasks'' (Rows ([''Id''] # map (\<lambda>x. [x]) many_ids))
          (fresh_world [Reply 200 (JsonBody JNull), Reply 500 (JsonBody JNull), Reply 200 (JsonBody JNull)])))) = 2"
proof -
  let ?rs = "[Reply 200 (JsonBody JNull), Reply 500 (JsonBody JNull), Reply 200 (JsonBody JNull)]"
  let ?w = "fresh_world ?rs"
  have len: "length (chunked many_ids 100) = 2" by (simp add: chunked_many)
  have k: "1 < length (chunked many_ids 100)" using len by simp
  have before: "\<forall>i<1. \<exists>s b. server ?w (log ?w @ map (del_req ev0 ''Tasks'' (JStr ''cached''))
                  (take (Suc i) (chunked many_ids 100))) = Reply s b \<and> \<not> (400 \<le> s \<and> s < 600)"
    by (simp add: scripted_def chunked_many)
  have at: "server ?w (log ?w @ map (del_req ev0 ''Tasks'' (JStr ''cached''))
                  (take (Suc 1) (chunked many_ids 100))) = Reply 500 (JsonBody JNull)"
    by (simp add: scripted_def chunked_many)
  from delete_stops_at_failed_chunk[OF read_many fresh_token k before at]
  show ?thesis by (simp add: chunked_many)
qed

text \<open>
  Claim C4 as stated fails for a response that is not 2xx but is not 4xx/5xx either: with
  101 identifiers and the first batch answered 304, no exception is raised, the second
  batch is sent, and the count reaches 101.
\<close>

theorem delete_non_2xx_counterexample:
  "server (fresh_world [Reply 304 (RawBody ''''), Reply 200 (JsonBody JNull)])
      [del_req ev0 ''Tasks'' (JStr ''cached'') (replicate 100 ''7'')] = Reply 304 (RawBody '''') \<and>
   \<not> (200 \<le> (304::int) \<and> (304::int) < 300) \<and>
   delete_batch_from_file ev0 ''Tasks'' (Rows ([''Id''] # map (\<lambda>x. [x]) many_ids))
      (fresh_world [Reply 304 (RawBody ''''), Reply 200 (JsonBody JNull)])
    = ((None, 101),
       (fresh_world [Reply 304 (RawBody ''''), Reply 200 (JsonBody JNull)])
         \<lparr>log := [del_req ev0 ''Tasks'' (JStr ''cached'') (replicate 100 ''7''),
                  del_req ev0 ''Tasks'' (JStr ''cached'') [''7'']]\<rparr>)"
proof -
  let ?w = "fresh_world [Reply 304 (RawBody ''''), Reply 200 (JsonBody JNull)]"
  have "delete_batch_from_file ev0 ''Tasks'' (Rows ([''Id''] # map (\<lambda>x. [x]) many_ids)) ?w
      = delete_batches ev0 ''Tasks'' (JStr ''cached'') [replicate 100 (Some ''7''), [Some ''7'']] 0 ?w"
    by (simp add: delete_batch_from_file_def read_many fresh_token chunked_map chunked_many)
  also have "\<dots> = ((None, 101), ?w\<lparr>log := [del_req ev0 ''Tasks'' (JStr ''cached'') (replicate 100 ''7''),
                  del_req ev0 ''Tasks'' (JStr ''cached'') [''7'']]\<rparr>)"
    by (simp add: py_join_replicate py_join_single send_def scripted_def raise_for_status_def del_req_def)
  finally show ?thesis by (simp add: scripted_def)
qed

section \<open>Properties of the request wrapper\<close>


lemma api_attempt_bad_headers:
  assumes "get_access_token ev False w = (Inr token, w1)"
    and "caller_headers kw = Inl e"
  shows "api_attempts ev m ep kw (a # as) resp w = (Inl e, w1)"
  using assms by simp

lemma api_attempt_bad_keyword:
  assumes "get_access_token ev False w = (Inr token, w1)"
    and "caller_headers kw = Inr hs"
    and "\<not> accepted (AList.delete ''headers'' kw)"
  shows "api_attempts ev m ep kw (a # as) resp w = (Inl TypeError, w1)"
  using assms by simp

lemma api_attempt_no_reply:
  assumes "get_access_token ev False w = (Inr token, w1)"
    and "caller_headers kw = Inr hs"
    and "accepted (AList.delete ''headers'' kw)"
    and "server w1 (log w1 @ [api_call ev m ep kw token]) = NoReply"
  shows "api_attempts ev m ep kw (a # as) resp w =
           (Inl ConnectionError, w1\<lparr>log := log w1 @ [api_call ev m ep kw token]\<rparr>)"
  using assms by (simp add: send_def)

lemma api_attempt_other:
  assumes "get_access_token ev False w = (Inr token, w1)"
    and "caller_headers kw = Inr hs"
    and "accepted (AList.delete ''headers'' kw)"
    and "server w1 (log w1 @ [api_call ev m ep kw token]) = Reply status body"
    and "status \<noteq> 401"
  shows "api_attempts ev m ep kw (a # as) resp w =
           (case raise_for_status status of Some e \<Rightarrow> Inl e | None \<Rightarrow> resp_json body,
            w1\<lparr>log := log w1 @ [api_call ev m ep kw token]\<rparr>)"
  using assms by (simp add: send_def split: option.splits sum.splits)







lemmas eval_defs = api_request_def get_access_token_def load_cached_token_def send_def
  fresh_world_def world0_def cache_with_def scripted_def token_ok_def raise_for_status_def
  SKEW_def save_cached_token_def



text \<open>
  The headers a caller gives are sent with the first attempt only: the retry after a 401
  starts from an empty header dict.
\<close>

lemma retry_drops_caller_headers:
  "map headers (log (snd (api_request ev0 ''GET'' ''/crm/v8/settings/fields''
      [(''headers'', JObj [(''Accept'', JStr ''application/json'')])]
      (fresh_world [Reply 401 (JsonBody JNull), token_ok, Reply 200 (JsonBody (JStr ''data''))]))))
     = [[(''Accept'', JStr ''application/json'')], [], []]"
  by (simp add: eval_defs api_call_def token_request_def caller_headers_def)

section \<open>Properties of the polling loop\<close>

lemma poll_once_sleeps:
  "poll_once ev job_id w = Pending w1 \<Longrightarrow> sleeps w1 = sleeps w"
  "poll_once ev job_id w = Returned r w1 \<Longrightarrow> sleeps w1 = sleeps w"
  "poll_once ev job_id w = Raised e w1 \<Longrightarrow> sleeps w1 = sleeps w"
proof -
  obtain r0 w0 where a: "api_request ev ''GET'' (job_endpoint job_id) [] w = (r0, w0)" by force
  note f = api_request_frame(3)[OF a]
  show "poll_once ev job_id w = Pending w1 \<Longrightarrow> sleeps w1 = sleeps w"
    using a f by (auto simp: poll_once_def split: sum.splits if_splits)
  show "poll_once ev job_id w = Returned r w1 \<Longrightarrow> sleeps w1 = sleeps w"
    using a f by (auto simp: poll_once_def split: sum.splits if_splits)
  show "poll_once ev job_id w = Raised e w1 \<Longrightarrow> sleeps w1 = sleeps w"
    using a f by (auto simp: poll_once_def split: sum.splits if_splits)
qed

lemma rounds_sleeps: "rounds n ev job_id w = Some wn \<Longrightarrow> sleeps wn = sleeps w @ replicate n 5"
proof (induction n arbitrary: w)
  case 0
  then show ?case by simp
next
  case (Suc n)
  then obtain w1 where p: "poll_once ev job_id w = Pending w1"
    and r: "rounds n ev job_id (sleep 5 w1) = Some wn"
    by (auto split: poll.splits)
  have "sleeps wn = sleeps (sleep 5 w1) @ replicate n 5" using Suc.IH[OF r] .
  then show ?case using poll_once_sleeps(1)[OF p] by (simp add: sleep_def replicate_append_same)
qed

lemma rounds_then_terminal:
  assumes "rounds n ev job_id w = Some wn"
  shows "check_job_status ev job_id w = check_job_status ev job_id wn"
  using assms
proof (induction n arbitrary: w)
  case 0
  then show ?case by simp
next
  case (Suc n)
  then obtain w1 where p: "poll_once ev job_id w = Pending w1"
    and r: "rounds n ev job_id (sleep 5 w1) = Some wn"
    by (auto split: poll.splits)
  have "check_job_status ev job_id w = check_job_status ev job_id (sleep 5 w1)"
    by (subst check_job_status.simps) (simp add: p)
  then show ?case using Suc.IH[OF r] by simp
qed

lemma check_job_status_only_terminal:
  assumes "check_job_status ev job_id w = Some res"
  shows "\<exists>n wn. rounds n ev job_id w = Some wn \<and>
     ((\<exists>r w'. poll_once ev job_id wn = Returned r w' \<and> res = (Inr r, w')) \<or>
      (\<exists>e w'. poll_once ev job_id wn = Raised e w' \<and> res = (Inl e, w')))"
proof (rule check_job_status.raw_induct[where P = "\<lambda>ev job_id w res.
    \<exists>n wn. rounds n ev job_id w = Some wn \<and>
     ((\<exists>r w'. poll_once ev job_id wn = Returned r w' \<and> res = (Inr r, w')) \<or>
      (\<exists>e w'. poll_once ev job_id wn = Raised e w' \<and> res = (Inl e, w')))", OF _ assms])
  fix f ev job_id w res
  assume ih: "\<And>ev job_id w res. f ev job_id w = Some res \<Longrightarrow>
    \<exists>n wn. rounds n ev job_id w = Some wn \<and>
     ((\<exists>r w'. poll_once ev job_id wn = Returned r w' \<and> res = (Inr r, w')) \<or>
      (\<exists>e w'. poll_once ev job_id wn = Raised e w' \<and> res = (Inl e, w')))"
    and eq: "(case poll_once ev job_id w of Returned r w1 \<Rightarrow> Some (Inr r, w1)
      | Raised e w1 \<Rightarrow> Some (Inl e, w1)
      | Pending w1 \<Rightarrow> f ev job_id (sleep 5 w1)) = Some res"
  show "\<exists>n wn. rounds n ev job_id w = Some wn \<and>
     ((\<exists>r w'. poll_once ev job_id wn = Returned r w' \<and> res = (Inr r, w')) \<or>
      (\<exists>e w'. poll_once ev job_id wn = Raised e w' \<and> res = (Inl e, w')))"
  proof (cases "poll_once ev job_id w")
    case (Returned r w1)
    with eq have "res = (Inr r, w1)" by simp
    with Returned show ?thesis by (intro exI[of _ 0] exI[of _ w]) simp
  next
    case (Raised e w1)
    with eq have "res = (Inl e, w1)" by simp
    with Raised show ?thesis by (intro exI[of _ 0] exI[of _ w]) simp
  next
    case (Pending w1)
    with eq have st: "f ev job_id (sleep 5 w1) = Some res" by simp
    from ih[OF st] obtain n wn where
      "rounds n ev job_id (sleep 5 w1) = Some wn \<and>
     ((\<exists>r w'. poll_once ev job_id wn = Returned r w' \<and> res = (Inr r, w')) \<or>
      (\<exists>e w'. poll_once ev job_id wn = Raised e w' \<and> res = (Inl e, w')))" by blast
    with Pending show ?thesis by (intro exI[of _ "Suc n"] exI[of _ wn]) simp
  qed
qed

lemma poll_once_state:
  assumes "api_request ev ''GET'' (job_endpoint job_id) [] w = (Inr res, w1)"
    and "getitem res ''data'' = Inr d" "getitem0 d = Inr job" "getitem job ''state'' = Inr st"
  shows "st = JStr ''COMPLETED'' \<Longrightarrow> getitem job ''result'' = Inr r \<Longrightarrow>
           poll_once ev job_id w = Returned r w1"
    and "st = JStr ''FAILURE'' \<or> st = JStr ''FAILED'' \<Longrightarrow> poll_once ev job_id w = Raised RuntimeError w1"
    and "st \<noteq> JStr ''COMPLETED'' \<Longrightarrow> st \<noteq> JStr ''FAILURE'' \<Longrightarrow> st \<noteq> JStr ''FAILED'' \<Longrightarrow>
           poll_once ev job_id w = Pending w1"
  using assms by (auto simp: poll_once_def)

text \<open>
  Claim C6. \<open>rounds n\<close> is the world after \<open>n\<close> rounds that each saw a state other than
  \<open>COMPLETED\<close>, \<open>FAILURE\<close> and \<open>FAILED\<close> and slept 5 seconds. If the next round returns or raises,
  the loop terminates with that result after exactly \<open>n\<close> sleeps of 5 seconds; and the loop
  terminates only in this way. A round whose request succeeds and shows the state \<open>st\<close>
  returns the job result when \<open>st\<close> is \<open>COMPLETED\<close>, raises \<open>RuntimeError\<close> when \<open>st\<close> is
  \<open>FAILURE\<close> or \<open>FAILED\<close>, and otherwise sleeps 5 seconds and polls again.
\<close>

theorem check_job_status_first_terminal:
  "(\<forall>n wn r w'. rounds n ev job_id w = Some wn \<and> poll_once ev job_id wn = Returned r w' \<longrightarrow>
      check_job_status ev job_id w = Some (Inr r, w') \<and> sleeps w' = sleeps w @ replicate n 5) \<and>
   (\<forall>n wn e w'. rounds n ev job_id w = Some wn \<and> poll_once ev job_id wn = Raised e w' \<longrightarrow>
      check_job_status ev job_id w = Some (Inl e, w') \<and> sleeps w' = sleeps w @ replicate n 5) \<and>
   (\<forall>res. check_job_status ev job_id w = Some res \<longrightarrow>
      (\<exists>n wn. rounds n ev job_id w = Some wn \<and>
         ((\<exists>r w'. poll_once ev job_id wn = Returned r w' \<and> res = (Inr r, w')) \<or>
          (\<exists>e w'. poll_once ev job_id wn = Raised e w' \<and> res = (Inl e, w'))))) \<and>
   (\<forall>v res v1 d job st.
      api_request ev ''GET'' (job_endpoint job_id) [] v = (Inr res, v1) \<and>
      getitem res ''data'' = Inr d \<and> getitem0 d = Inr job \<and> getitem job ''state'' = Inr st \<longrightarrow>
      (st = JStr ''COMPLETED'' \<longrightarrow>
         (\<forall>r. getitem job ''result'' = Inr r \<longrightarrow> poll_once ev job_id v = Returned r v1)) \<and>
      (st = JStr ''FAILURE'' \<or> st = JStr ''FAILED'' \<longrightarrow> poll_once ev job_id v = Raised RuntimeError v1) \<and>
      (st \<noteq> JStr ''COMPLETED'' \<and> st \<noteq> JStr ''FAILURE'' \<and> st \<noteq> JStr ''FAILED'' \<longrightarrow>
         poll_once ev job_id v = Pending v1 \<and>
         rounds 1 ev job_id v = Some (sleep 5 v1)))"
proof (intro conjI allI impI)
  fix n wn r w'
  assume a: "rounds n ev job_id w = Some wn \<and> poll_once ev job_id wn = Returned r w'"
  then have "check_job_status ev job_id wn = Some (Inr r, w')"
    by (subst check_job_status.simps) simp
  then show "check_job_status ev job_id w = Some (Inr r, w')"
    using a rounds_then_terminal[of n ev job_id w wn] by simp
  show "sleeps w' = sleeps w @ replicate n 5"
    using a rounds_sleeps[of n ev job_id w wn] poll_once_sleeps(2)[of ev job_id wn r w'] by simp
next
  fix n wn e w'
  assume a: "rounds n ev job_id w = Some wn \<and> poll_once ev job_id wn = Raised e w'"
  then have "check_job_status ev job_id wn = Some (Inl e, w')"
    by (subst check_job_status.simps) simp
  then show "check_job_status ev job_id w = Some (Inl e, w')"
    using a rounds_then_terminal[of n ev job_id w wn] by simp
  show "sleeps w' = sleeps w @ replicate n 5"
    using a rounds_sleeps[of n ev job_id w wn] poll_once_sleeps(3)[of ev job_id wn e w'] by simp
next
  fix res assume "check_job_status ev job_id w = Some res"
  then show "\<exists>n wn. rounds n ev job_id w = Some wn \<and>
         ((\<exists>r w'. poll_once ev job_id wn = Returned r w' \<and> res = (Inr r, w')) \<or>
          (\<exists>e w'. poll_once ev job_id wn = Raised e w' \<and> res = (Inl e, w')))"
    by (rule check_job_status_only_terminal)
next
  fix v res v1 d job st r
  assume a: "api_request ev ''GET'' (job_endpoint job_id) [] v = (Inr res, v1) \<and>
      getitem res ''data'' = Inr d \<and> getitem0 d = Inr job \<and> getitem job ''state'' = Inr st"
    and "st = JStr ''COMPLETED''" "getitem job ''result'' = Inr r"
  then show "poll_once ev job_id v = Returned r v1" using poll_once_state(1)[of ev job_id v res v1 d job st r] by simp
next
  fix v res v1 d job st
  assume a: "api_request ev ''GET'' (job_endpoint job_id) [] v = (Inr res, v1) \<and>
      getitem res ''data'' = Inr d \<and> getitem0 d = Inr job \<and> getitem job ''state'' = Inr st"
    and "st = JStr ''FAILURE'' \<or> st = JStr ''FAILED''"
  then show "poll_once ev job_id v = Raised RuntimeError v1"
    using poll_once_state(2)[of ev job_id v res v1 d job st] by simp
next
  fix v res v1 d job st
  assume a: "api_request ev ''GET'' (job_endpoint job_id) [] v = (Inr res, v1) \<and>
      getitem res ''data'' = Inr d \<and> getitem0 d = Inr job \<and> getitem job ''state'' = Inr st"
    and b: "st \<noteq> JStr ''COMPLETED'' \<and> st \<noteq> JStr ''FAILURE'' \<and> st \<noteq> JStr ''FAILED''"
  then show p: "poll_once ev job_id v = Pending v1"
    using poll_once_state(3)[of ev job_id v res v1 d job st] by simp
  then show "rounds 1 ev job_id v = Some (sleep 5 v1)" by simp
qed

theorem check_job_status_first_terminal_witness:
  "map_option fst (check_job_status ev0 ''555'' (fresh_world [job_reply ''QUEUED'', job_reply ''COMPLETED'']))
     = Some (Inr job_result) \<and>
   map_option (\<lambda>res. sleeps (snd res))
      (check_job_status ev0 ''555'' (fresh_world [job_reply ''QUEUED'', job_reply ''COMPLETED'']))
     = Some [5] \<and>
   map_option fst (check_job_status ev0 ''555'' (fresh_world [job_reply ''FAILED'', job_reply ''COMPLETED'']))
     = Some (Inl RuntimeError)"
proof -
  note T1 = check_job_status_first_terminal[THEN conjunct1, rule_format]
  note T2 = check_job_status_first_terminal[THEN conjunct2, THEN conjunct1, rule_format]
  note T4 = check_job_status_first_terminal[THEN conjunct2, THEN conjunct2, THEN conjunct2, rule_format]
  let ?c = "api_call ev0 ''GET'' (job_endpoint ''555'') [] (JStr ''cached'')"
  let ?w = "fresh_world [job_reply ''QUEUED'', job_reply ''COMPLETED'']"
  let ?w1 = "?w\<lparr>log := [?c]\<rparr>"
  let ?w2 = "(sleep 5 ?w1)\<lparr>log := [?c, ?c]\<rparr>"
  let ?job = "\<lambda>s. JObj [(''state'', JStr s), (''result'', job_result)]"
  let ?res = "\<lambda>s. JObj [(''data'', JArr [?job s])]"
  have a1: "api_request ev0 ''GET'' (job_endpoint ''555'') [] ?w = (Inr (?res ''QUEUED''), ?w1)"
    by (simp add: api_request_def fresh_token send_def scripted_def job_reply_def raise_for_status_def)
  have f1: "getitem (?res s) ''data'' = Inr (JArr [?job s])" for s by simp
  have f2: "getitem0 (JArr [?job s]) = Inr (?job s)" for s by simp
  have f3: "getitem (?job s) ''state'' = Inr (JStr s)" for s by simp
  have f4: "getitem (?job s) ''result'' = Inr job_result" for s by simp
  have q: "JStr ''QUEUED'' \<noteq> JStr ''COMPLETED'' \<and> JStr ''QUEUED'' \<noteq> JStr ''FAILURE'' \<and>
           JStr ''QUEUED'' \<noteq> JStr ''FAILED''" by simp
  have r1: "rounds 1 ev0 ''555'' ?w = Some (sleep 5 ?w1)"
    using T4[OF conjI[OF a1 conjI[OF f1 conjI[OF f2 f3]]], THEN conjunct2, THEN conjunct2, rule_format, OF q]
    by (rule conjunct2)
  have t2: "get_access_token ev0 False (sleep 5 ?w1) = (Inr (JStr ''cached''), sleep 5 ?w1)"
    by (simp add: get_access_token_def load_cached_token_def fresh_world_def world0_def
        cache_with_def SKEW_def sleep_def)
  have s2: "server (sleep 5 ?w1) (log (sleep 5 ?w1) @ [?c]) = Reply 200 (JsonBody (?res ''COMPLETED''))"
    by (simp add: sleep_def scripted_def job_reply_def)
  have n401: "(200::int) \<noteq> 401" by simp
  have a2: "api_request ev0 ''GET'' (job_endpoint ''555'') [] (sleep 5 ?w1) = (Inr (?res ''COMPLETED''), ?w2)"
    using api_attempt_other[OF t2 caller_headers_none[of "[]"] _ s2 n401, of 0 "[1]" None]
    by (simp add: api_request_def raise_for_status_def sleep_def)
  have p2: "poll_once ev0 ''555'' (sleep 5 ?w1) = Returned job_result ?w2"
    using T4[OF conjI[OF a2 conjI[OF f1 conjI[OF f2 f3]]], THEN conjunct1, rule_format, OF refl f4] .
  have fin: "check_job_status ev0 ''555'' ?w = Some (Inr job_result, ?w2) \<and>
      sleeps ?w2 = sleeps ?w @ replicate 1 5"
    using T1[OF conjI[OF r1 p2]] .
  let ?v = "fresh_world [job_reply ''FAILED'', job_reply ''COMPLETED'']"
  have b1: "api_request ev0 ''GET'' (job_endpoint ''555'') [] ?v = (Inr (?res ''FAILED''), ?v\<lparr>log := [?c]\<rparr>)"
    by (simp add: api_request_def fresh_token send_def scripted_def job_reply_def raise_for_status_def)
  have pf: "poll_once ev0 ''555'' ?v = Raised RuntimeError (?v\<lparr>log := [?c]\<rparr>)"
    using T4[OF conjI[OF b1 conjI[OF f1 conjI[OF f2 f3]]], THEN conjunct2, THEN conjunct1, rule_format, OF disjI2, OF refl] .
  have r0: "rounds 0 ev0 ''555'' ?v = Some ?v" by simp
  have failed: "check_job_status ev0 ''555'' ?v = Some (Inl RuntimeError, ?v\<lparr>log := [?c]\<rparr>) \<and>
      sleeps (?v\<lparr>log := [?c]\<rparr>) = sleeps ?v @ replicate 0 5"
    using T2[OF conjI[OF r0 pf]] .
  have sl: "sleeps ?w = []" by (simp add: fresh_world_def world0_def)
  have sl2: "sleeps ?w2 = [5]" using fin sl by simp
  show ?thesis using fin failed sl2 by simp
qed

section \<open>Which calls go through the wrapper\<close>

lemma create_log:
  "log (snd (create_bulk_read_job ev mn name w))
     = log (snd (api_request ev ''POST'' ''/crm/bulk/v8/read'' [(''json'', read_job_payload mn)] w))"
proof -
  obtain r1 w1 where a: "api_request ev ''POST'' ''/crm/bulk/v8/read'' [(''json'', read_job_payload mn)] w = (r1, w1)"
    by force
  show ?thesis
    using a by (cases r1) (auto simp: create_bulk_read_job_def Let_def split: sum.splits stored.splits json.splits)
qed

lemma poll_log:
  "log (poll_world (poll_once ev job_id w)) = log (snd (api_request ev ''GET'' (job_endpoint job_id) [] w))"
proof -
  obtain r1 w1 where a: "api_request ev ''GET'' (job_endpoint job_id) [] w = (r1, w1)" by force
  show ?thesis
    using a by (cases r1) (auto simp: poll_once_def split: sum.splits)
qed

lemma delete_first_401:
  assumes "read_ids f = Inr (map Some xs)" "xs \<noteq> []"
    and "get_access_token ev False w = (Inr token, w1)"
    and "server w (log w1 @ [del_req ev mn token (take 100 xs)]) = Reply 401 body"
  shows "delete_batch_from_file ev mn f w =
           ((Some (HTTPError 401), 0), w1\<lparr>log := log w1 @ [del_req ev mn token (take 100 xs)]\<rparr>)"
proof -
  obtain x it where xs: "xs = x # it" using assms(2) by (cases xs) auto
  have sv: "server w1 = server w" using get_access_token_frame'(1)[OF assms(3)] .
  have ch: "chunked xs 100 = take 100 xs # chunked (drop 99 it) 100" using xs by simp
  have "delete_batches ev mn token (map (map Some) (chunked xs 100)) 0 w1
      = ((Some (HTTPError 401), 0), w1\<lparr>log := log w1 @ [del_req ev mn token (take 100 xs)]\<rparr>)"
    using assms(4) sv unfolding ch
    by (simp add: send_def del_req_def raise_for_status_def del: take_Suc_Cons)
  then show ?thesis using assms(1,3) by (simp add: delete_batch_from_file_def chunked_map)
qed

lemma download_direct:
  assumes "api_request ev ''GET'' (job_endpoint job_id) [] w = (Inr res, w1)"
    and "getitem res ''data'' = Inr d" "getitem0 d = Inr job" "getitem job ''result'' = Inr result"
    and "getitem result ''page'' = Inr page"
    and "get_access_token ev False w1 = (Inr token, w2)"
    and "getitem result ''download_url'' = Inr u"
    and "server w (log w2 @ [download_request ev token u]) = Reply status body"
  shows "download_all_pages ev job_id out_prefix w =
           (Inr (), w2\<lparr>log := log w2 @ [download_request ev token u],
                       files := files w2 @ [(zip_name out_prefix page, body)]\<rparr>)"
proof -
  obtain nt mr where dg: "dict_get result ''next_page_token'' JNull = Inr nt"
    "dict_get result ''more_records'' (JBool False) = Inr mr"
    using dict_get_ok[OF assms(5)] by blast
  have "server w2 = server w"
    using api_request_frame(1)[OF assms(1)] get_access_token_frame'(1)[OF assms(6)] by simp
  then have "send (download_request ev token u) w2
      = (Reply status body, w2\<lparr>log := log w2 @ [download_request ev token u]\<rparr>)"
    using assms(8) by (simp add: send_def)
  then show ?thesis using assms(1-7) dg by (simp add: download_all_pages_def)
qed

text \<open>
  Claim C5, amended. Creating a job and polling its status send exactly the requests
  that \<open>api_request\<close> sends. The delete of a batch and the download of the archive are
  sent on the session directly, with the same Authorization header built from
  \<open>get_access_token\<close>: a 401 answer to the first delete raises \<open>HTTPError 401\<close> with no
  refresh and no retry, and the answer to the download is written to the file whatever
  its status.
\<close>

theorem direct_calls_bypass_wrapper:
  "log (snd (create_bulk_read_job ev mn name w))
     = log (snd (api_request ev ''POST'' ''/crm/bulk/v8/read'' [(''json'', read_job_payload mn)] w)) \<and>
   log (poll_world (poll_once ev job_id w))
     = log (snd (api_request ev ''GET'' (job_endpoint job_id) [] w)) \<and>
   (\<forall>xs token w1 body.
      read_ids f = Inr (map Some xs) \<and> xs \<noteq> [] \<and> get_access_token ev False w = (Inr token, w1) \<and>
      server w (log w1 @ [del_req ev mn token (take 100 xs)]) = Reply 401 body \<longrightarrow>
      delete_batch_from_file ev mn f w =
        ((Some (HTTPError 401), 0), w1\<lparr>log := log w1 @ [del_req ev mn token (take 100 xs)]\<rparr>) \<and>
      authorization (del_req ev mn token (take 100 xs)) = Some (auth_header token)) \<and>
   (\<forall>res w1 d job result page token w2 u status body.
      api_request ev ''GET'' (job_endpoint job_id) [] w = (Inr res, w1) \<and>
      getitem res ''data'' = Inr d \<and> getitem0 d = Inr job \<and> getitem job ''result'' = Inr result \<and>
      getitem result ''page'' = Inr page \<and> get_access_token ev False w1 = (Inr token, w2) \<and>
      getitem result ''download_url'' = Inr u \<and>
      server w (log w2 @ [download_request ev token u]) = Reply status body \<longrightarrow>
      download_all_pages ev job_id out_prefix w =
        (Inr (), w2\<lparr>log := log w2 @ [download_request ev token u],
                    files := files w2 @ [(zip_name out_prefix page, body)]\<rparr>) \<and>
      authorization (download_request ev token u) = Some (auth_header token))"
proof (intro conjI allI impI)
  show "log (snd (create_bulk_read_job ev mn name w))
     = log (snd (api_request ev ''POST'' ''/crm/bulk/v8/read'' [(''json'', read_job_payload mn)] w))"
    by (rule create_log)
  show "log (poll_world (poll_once ev job_id w))
     = log (snd (api_request ev ''GET'' (job_endpoint job_id) [] w))"
    by (rule poll_log)
next
  fix xs token w1 body
  assume "read_ids f = Inr (map Some xs) \<and> xs \<noteq> [] \<and> get_access_token ev False w = (Inr token, w1) \<and>
      server w (log w1 @ [del_req ev mn token (take 100 xs)]) = Reply 401 body"
  then show "delete_batch_from_file ev mn f w =
        ((Some (HTTPError 401), 0), w1\<lparr>log := log w1 @ [del_req ev mn token (take 100 xs)]\<rparr>)"
    using delete_first_401[of f xs ev w token w1 mn body] by simp
  show "authorization (del_req ev mn token (take 100 xs)) = Some (auth_header token)"
    by (simp add: del_req_def delete_request_def)
next
  fix res w1 d job result page token w2 u status body
  assume "api_request ev ''GET'' (job_endpoint job_id) [] w = (Inr res, w1) \<and>
      getitem res ''data'' = Inr d \<and> getitem0 d = Inr job \<and> getitem job ''result'' = Inr result \<and>
      getitem result ''page'' = Inr page \<and> get_access_token ev False w1 = (Inr token, w2) \<and>
      getitem result ''download_url'' = Inr u \<and>
      server w (log w2 @ [download_request ev token u]) = Reply status body"
  then show "download_all_pages ev job_id out_prefix w =
        (Inr (), w2\<lparr>log := log w2 @ [download_request ev token u],
                    files := files w2 @ [(zip_name out_prefix page, body)]\<rparr>)"
    using download_direct[of ev job_id w res w1 d job result page token w2 u status body out_prefix]
    by simp
  show "authorization (download_request ev token u) = Some (auth_header token)"
    by (simp add: download_request_def)
qed

lemma read_two_ids: "read_ids two_ids = Inr (map Some [''1'', ''2''])"
  by (simp add: two_ids_def read_ids_def fieldnames_def data_rows_def row_dict_def)

theorem direct_calls_bypass_wrapper_witness:
  "delete_batch_from_file ev0 ''Tasks'' two_ids
      (fresh_world [Reply 401 (JsonBody JNull), token_ok, Reply 200 (JsonBody JNull)])
     = ((Some (HTTPError 401), 0),
        (fresh_world [Reply 401 (JsonBody JNull), token_ok, Reply 200 (JsonBody JNull)])
          \<lparr>log := [del_req ev0 ''Tasks'' (JStr ''cached'') [''1'', ''2'']]\<rparr>) \<and>
   authorization (del_req ev0 ''Tasks'' (JStr ''cached'') [''1'', ''2'']) = Some (auth_header (JStr ''cached'')) \<and>
   download_all_pages ev0 ''555'' ''out'' (fresh_world [job_reply ''COMPLETED'', Reply 401 (RawBody ''denied'')])
     = (Inr (),
        (fresh_world [job_reply ''COMPLETED'', Reply 401 (RawBody ''denied'')])
          \<lparr>log := [api_call ev0 ''GET'' (job_endpoint ''555'') [] (JStr ''cached''),
                   download_request ev0 (JStr ''cached'') (JStr ''/crm/bulk/v8/read/555/result'')],
            files := [(zip_name ''out'' (JInt 1), RawBody ''denied'')]\<rparr>)"
proof -
  let ?w = "fresh_world [Reply 401 (JsonBody JNull), token_ok, Reply 200 (JsonBody JNull)]"
  have ne: "[''1'', ''2''] \<noteq> []" by simp
  have tk: "take 100 [''1'', ''2''] = [''1'', ''2'']" by simp
  have r: "server ?w (log ?w @ [del_req ev0 ''Tasks'' (JStr ''cached'') (take 100 [''1'', ''2''])])
      = Reply 401 (JsonBody JNull)"
    by (simp add: scripted_def)
  note D = direct_calls_bypass_wrapper[THEN conjunct2, THEN conjunct2, THEN conjunct1, rule_format]
  from D[OF conjI[OF read_two_ids conjI[OF ne conjI[OF fresh_token r]]]]
  have del: "delete_batch_from_file ev0 ''Tasks'' two_ids ?w
     = ((Some (HTTPError 401), 0), ?w\<lparr>log := [del_req ev0 ''Tasks'' (JStr ''cached'') [''1'', ''2'']]\<rparr>) \<and>
   authorization (del_req ev0 ''Tasks'' (JStr ''cached'') [''1'', ''2'']) = Some (auth_header (JStr ''cached''))"
    unfolding tk by simp
  let ?v = "fresh_world [job_reply ''COMPLETED'', Reply 401 (RawBody ''denied'')]"
  let ?c = "api_call ev0 ''GET'' (job_endpoint ''555'') [] (JStr ''cached'')"
  let ?v1 = "?v\<lparr>log := [?c]\<rparr>"
  let ?job = "JObj [(''state'', JStr ''COMPLETED''), (''result'', job_result)]"
  let ?res = "JObj [(''data'', JArr [?job])]"
  let ?u = "JStr ''/crm/bulk/v8/read/555/result''"
  have a: "api_request ev0 ''GET'' (job_endpoint ''555'') [] ?v = (Inr ?res, ?v1)"
    by (simp add: api_request_def fresh_token send_def scripted_def job_reply_def raise_for_status_def)
  have f1: "getitem ?res ''data'' = Inr (JArr [?job])" by simp
  have f2: "getitem0 (JArr [?job]) = Inr ?job" by simp
  have f3: "getitem ?job ''result'' = Inr job_result" by simp
  have f4: "getitem job_result ''page'' = Inr (JInt 1)" by (simp add: job_result_def)
  have f5: "getitem job_result ''download_url'' = Inr ?u" by (simp add: job_result_def)
  have t: "get_access_token ev0 False ?v1 = (Inr (JStr ''cached''), ?v1)"
    by (simp add: get_access_token_def load_cached_token_def fresh_world_def world0_def
        cache_with_def SKEW_def)
  have sv: "server ?v (log ?v1 @ [download_request ev0 (JStr ''cached'') ?u]) = Reply 401 (RawBody ''denied'')"
    by (simp add: scripted_def)
  note E = direct_calls_bypass_wrapper[THEN conjunct2, THEN conjunct2, THEN conjunct2, rule_format]
  from E[OF conjI[OF a conjI[OF f1 conjI[OF f2 conjI[OF f3 conjI[OF f4 conjI[OF t conjI[OF f5 sv]]]]]]],
      where out_prefix = "''out''"]
  have dl: "download_all_pages ev0 ''555'' ''out'' ?v
     = (Inr (), ?v1\<lparr>log := log ?v1 @ [download_request ev0 (JStr ''cached'') ?u],
                    files := files ?v1 @ [(zip_name ''out'' (JInt 1), RawBody ''denied'')]\<rparr>)"
    by (rule conjunct1)
  have "files ?v1 = []" by (simp add: fresh_world_def world0_def)
  then show ?thesis using del dl by simp
qed

text \<open>
  Claim C5 as stated fails: a delete answered 401 raises after that single request,
  where \<open>api_request\<close> for the same URL in the same world refreshes the token, retries and
  succeeds; and a download answered 401 is written to the archive file without refresh
  or retry.
\<close>

theorem handlers_bypass_wrapper_counterexample:
  "delete_batch_from_file ev0 ''Tasks'' two_ids
      (fresh_world [Reply 401 (JsonBody JNull), token_ok, Reply 200 (JsonBody JNull)])
     = ((Some (HTTPError 401), 0),
        (fresh_world [Reply 401 (JsonBody JNull), token_ok, Reply 200 (JsonBody JNull)])
          \<lparr>log := [del_req ev0 ''Tasks'' (JStr ''cached'') [''1'', ''2'']]\<rparr>) \<and>
   url (del_req ev0 ''Tasks'' (JStr ''cached'') [''1'', ''2''])
     = url (api_call ev0 ''DELETE'' ''/crm/v8/Tasks?ids=1,2&wf_trigger=true'' [] (JStr ''cached'')) \<and>
   fst (api_request ev0 ''DELETE'' ''/crm/v8/Tasks?ids=1,2&wf_trigger=true'' []
      (fresh_world [Reply 401 (JsonBody JNull), token_ok, Reply 200 (JsonBody JNull)])) = Inr JNull \<and>
   log (snd (api_request ev0 ''DELETE'' ''/crm/v8/Tasks?ids=1,2&wf_trigger=true'' []
      (fresh_world [Reply 401 (JsonBody JNull), token_ok, Reply 200 (JsonBody JNull)])))
     = [api_call ev0 ''DELETE'' ''/crm/v8/Tasks?ids=1,2&wf_trigger=true'' [] (JStr ''cached''),
        token_request ev0,
        api_call ev0 ''DELETE'' ''/crm/v8/Tasks?ids=1,2&wf_trigger=true'' [] (JStr ''fresh'')] \<and>
   fst (download_all_pages ev0 ''555'' ''out''
      (fresh_world [job_reply ''COMPLETED'', Reply 401 (RawBody ''denied''), token_ok, Reply 200 (RawBody ''PK'')]))
     = Inr () \<and>
   files (snd (download_all_pages ev0 ''555'' ''out''
      (fresh_world [job_reply ''COMPLETED'', Reply 401 (RawBody ''denied''), token_ok, Reply 200 (RawBody ''PK'')])))
     = [(zip_name ''out'' (JInt 1), RawBody ''denied'')] \<and>
   length (log (snd (download_all_pages ev0 ''555'' ''out''
      (fresh_world [job_reply ''COMPLETED'', Reply 401 (RawBody ''denied''), token_ok, Reply 200 (RawBody ''PK'')]))))
     = 2"
proof -
  let ?w = "fresh_world [Reply 401 (JsonBody JNull), token_ok, Reply 200 (JsonBody JNull)]"
  have a: "delete_batch_from_file ev0 ''Tasks'' two_ids ?w
     = ((Some (HTTPError 401), 0), ?w\<lparr>log := [del_req ev0 ''Tasks'' (JStr ''cached'') [''1'', ''2'']]\<rparr>)"
    by (simp add: delete_batch_from_file_def read_two_ids fresh_token py_join_def send_def
        scripted_def raise_for_status_def del_req_def)
  have b: "url (del_req ev0 ''Tasks'' (JStr ''cached'') [''1'', ''2''])
     = url (api_call ev0 ''DELETE'' ''/crm/v8/Tasks?ids=1,2&wf_trigger=true'' [] (JStr ''cached''))"
    by (simp add: del_req_def delete_request_def api_call_def ev0_def)
  have c: "fst (api_request ev0 ''DELETE'' ''/crm/v8/Tasks?ids=1,2&wf_trigger=true'' [] ?w) = Inr JNull \<and>
    log (snd (api_request ev0 ''DELETE'' ''/crm/v8/Tasks?ids=1,2&wf_trigger=true'' [] ?w))
     = [api_call ev0 ''DELETE'' ''/crm/v8/Tasks?ids=1,2&wf_trigger=true'' [] (JStr ''cached''),
        token_request ev0,
        api_call ev0 ''DELETE'' ''/crm/v8/Tasks?ids=1,2&wf_trigger=true'' [] (JStr ''fresh'')]"
    by (simp add: eval_defs)
  let ?v = "fresh_world [job_reply ''COMPLETED'', Reply 401 (RawBody ''denied''), token_ok, Reply 200 (RawBody ''PK'')]"
  have d: "fst (download_all_pages ev0 ''555'' ''out'' ?v) = Inr () \<and>
     files (snd (download_all_pages ev0 ''555'' ''out'' ?v)) = [(zip_name ''out'' (JInt 1), RawBody ''denied'')] \<and>
     length (log (snd (download_all_pages ev0 ''555'' ''out'' ?v))) = 2"
    by (simp add: download_all_pages_def eval_defs job_reply_def job_result_def)
  show ?thesis using a b c d by (intro conjI) simp_all
qed

end
